theory Spec2Isabelle
  imports Main "HOL-Library.AList"
begin

section \<open>Python values used by \<open>analysis/coverage_data_utils.py\<close>\<close>

text \<open>
  The module is modelled function by function. Python strings are \<^typ>\<open>string\<close>; a
  \<^typ>\<open>char\<close> stands for a code point below U+0100. A \<open>dict\<close> is an association list in
  insertion order whose keys are pairwise different (\<open>distinct (map fst d)\<close>); a \<open>set\<close> is
  the list of its elements in iteration order, without repetition. Counters that start at
  \<open>0\<close> and are only incremented, and results of \<open>len\<close>, are natural numbers. Every
  \<open>raise\<close> of the source is a value \<open>Inl e\<close>. A \<open>pandas.DataFrame\<close> that a function
  returns is the record of its columns. \<open>get_covered_regions_dict\<close> (the worker pool
  and the temporary directory) and \<open>rank_by_average_normalized_score\<close> (a call into
  \<open>data_utils\<close>) are not part of the model.
\<close>

datatype error = KeyError | ValueError | IndexError | OSError

subsection \<open>\<open>str.isspace\<close>, \<open>str.split()\<close> and unpacking into two names\<close>

text \<open>
  The code points below U+0100 that Python's \<open>str.split()\<close> treats as whitespace:
  TAB, LF, VT, FF, CR, FS, GS, RS, US, SPACE, NEL (0x85) and NBSP (0xA0).
\<close>

definition py_isspace :: "char \<Rightarrow> bool" where
  "py_isspace c \<longleftrightarrow>
     (of_char c :: nat) \<in> {9, 10, 11, 12, 13, 28, 29, 30, 31, 32, 133, 160}"

text \<open>
  \<open>s.split()\<close> with no separator: runs of whitespace separate the words, and leading and
  trailing whitespace produces no empty word. \<open>word\<close> is the word being read.
\<close>

fun py_split_from :: "string \<Rightarrow> string \<Rightarrow> string list" where
  "py_split_from word [] = (if word = [] then [] else [word])"
| "py_split_from word (c # cs) =
     (if py_isspace c
      then (if word = [] then py_split_from [] cs else word # py_split_from [] cs)
      else py_split_from (word @ [c]) cs)"

definition py_split :: "string \<Rightarrow> string list" where
  "py_split s = py_split_from [] s"

text \<open>\<open>a, b = xs\<close> raises \<open>ValueError\<close> unless \<open>xs\<close> has exactly two elements.\<close>

fun unpack_pair :: "'a list \<Rightarrow> error + 'a \<times> 'a" where
  "unpack_pair [a, b] = Inr (a, b)"
| "unpack_pair xs = Inl ValueError"

subsection \<open>\<open>posixpath.join\<close>\<close>

text \<open>
  One round of the loop of \<open>posixpath.join(a, *p)\<close>: a component that starts with the
  separator replaces the path; an empty path, or one that ends with the separator, gets
  the component appended; otherwise a separator is put in between.
\<close>

definition join_step :: "string \<Rightarrow> string \<Rightarrow> string" where
  "join_step path b =
     (if b \<noteq> [] \<and> hd b = CHR ''/'' then b
      else if path = [] \<or> last path = CHR ''/'' then path @ b
      else path @ ''/'' @ b)"

definition posixpath_join :: "string \<Rightarrow> string list \<Rightarrow> string" where
  "posixpath_join a p = foldl join_step a p"

subsection \<open>Dictionaries\<close>

text \<open>\<open>d[k]\<close>: the value stored under \<open>k\<close>, \<open>KeyError\<close> when there is none.\<close>

definition dict_getitem :: "('k \<times> 'v) list \<Rightarrow> 'k \<Rightarrow> error + 'v" where
  "dict_getitem d k = (case map_of d k of None \<Rightarrow> Inl KeyError | Some v \<Rightarrow> Inr v)"

text \<open>
  \<open>d[k] = v\<close> is \<^const>\<open>AList.update\<close>: the value of an existing key is replaced where it
  stands, a new key is appended.

  A \<open>collections.defaultdict(f)\<close> differs from a \<open>dict\<close> in \<open>d[k]\<close> only: a missing key
  is first stored with the default \<open>f()\<close>. \<open>defaultdict_getitem\<close> returns the value read
  and the dictionary after the read.
\<close>

definition defaultdict_getitem ::
  "'v \<Rightarrow> ('k \<times> 'v) list \<Rightarrow> 'k \<Rightarrow> 'v \<times> ('k \<times> 'v) list" where
  "defaultdict_getitem dflt d k =
     (case map_of d k of
        None \<Rightarrow> (dflt, AList.update k dflt d)
      | Some v \<Rightarrow> (v, d))"

section \<open>The fuzzer-benchmark key and the filestore paths\<close>

text \<open>\<open>get_fuzzer_benchmark_key\<close>: \<open>fuzzer + ' ' + benchmark\<close>.\<close>

definition get_fuzzer_benchmark_key :: "string \<Rightarrow> string \<Rightarrow> string" where
  "get_fuzzer_benchmark_key fuzzer benchmark = fuzzer @ '' '' @ benchmark"

text \<open>
  The statement \<open>current_fuzzer, current_benchmark = key_pair.split()\<close> of
  \<open>get_benchmark_cov_dict\<close> and \<open>get_benchmark_aggregated_cov_df\<close>.
\<close>

definition split_key_pair :: "string \<Rightarrow> error + string \<times> string" where
  "split_key_pair key_pair = unpack_pair (py_split key_pair)"

text \<open>
  The experiment data frame, as far as this module reads it: one record per row, with the
  four columns the module selects (\<open>df.experiment_filestore\<close>, \<open>df.experiment\<close>,
  \<open>df.fuzzer\<close>, \<open>df.benchmark\<close>).
\<close>

record experiment_row =
  df_experiment_filestore :: string
  df_experiment :: string
  df_fuzzer :: string
  df_benchmark :: string

text \<open>
  \<open>Series.unique()\<close> keeps the first occurrence of every value, in order of appearance;
  \<open>[0]\<close> on its result raises \<open>IndexError\<close> when there is no row.
\<close>

definition pd_unique :: "'a list \<Rightarrow> 'a list" where
  "pd_unique xs = foldl (\<lambda>seen x. if x \<in> set seen then seen else seen @ [x]) [] xs"

definition getitem0 :: "'a list \<Rightarrow> error + 'a" where
  "getitem0 xs = (case xs of [] \<Rightarrow> Inl IndexError | x # _ \<Rightarrow> Inr x)"

definition get_experiment_filestore_path :: "experiment_row list \<Rightarrow> error + string" where
  "get_experiment_filestore_path df =
     (case getitem0 (pd_unique (map df_experiment_filestore df)) of
        Inl e \<Rightarrow> Inl e
      | Inr filestore_path \<Rightarrow>
          (case getitem0 (pd_unique (map df_experiment df)) of
             Inl e \<Rightarrow> Inl e
           | Inr exp_name \<Rightarrow> Inr (posixpath_join filestore_path [exp_name])))"

definition get_coverage_report_filestore_path ::
  "string \<Rightarrow> string \<Rightarrow> experiment_row list \<Rightarrow> error + string" where
  "get_coverage_report_filestore_path fuzzer_name benchmark_name df =
     (let df1 = filter (\<lambda>row. df_fuzzer row = fuzzer_name) df;
          df2 = filter (\<lambda>row. df_benchmark row = benchmark_name) df1
      in case get_experiment_filestore_path df2 of
           Inl e \<Rightarrow> Inl e
         | Inr experiment_filestore_path \<Rightarrow>
             Inr (posixpath_join experiment_filestore_path
                    [''coverage'', ''reports'', benchmark_name, fuzzer_name, ''index.html'']))"

text \<open>
  The two local paths of \<open>get_fuzzer_covered_regions\<close>: \<open>dst_file\<close> (\<open>os.path\<close> is
  \<open>posixpath\<close> on the platforms the experiments run on) and \<open>src_file\<close>.
\<close>

definition dst_file :: "string \<Rightarrow> string \<Rightarrow> string \<Rightarrow> string" where
  "dst_file temp_dir fuzzer_name benchmark_name =
     posixpath_join temp_dir [fuzzer_name @ ''-'' @ benchmark_name @ ''-coverage.json'']"

definition src_file :: "string \<Rightarrow> string \<Rightarrow> string \<Rightarrow> string" where
  "src_file filestore benchmark_name fuzzer_name =
     posixpath_join filestore
       [''coverage'', ''data'', benchmark_name, fuzzer_name, ''covered_regions.json'']"

section \<open>Retrieval of one fuzzer's covered regions\<close>

text \<open>
  What \<open>get_fuzzer_covered_regions\<close> returns: the decoded JSON array of regions, each
  region a JSON array, or the empty \<open>dict\<close> literal \<open>{}\<close> of its early return. Both are
  iterated and measured with \<open>len\<close> by the callers: \<open>{}\<close> iterates over nothing.
\<close>

datatype 'a covered_regions = EmptyDict | RegionList "'a list list"

primrec py_iter :: "'a covered_regions \<Rightarrow> 'a list list" where
  "py_iter EmptyDict = []"
| "py_iter (RegionList regions) = regions"

definition py_len :: "'a covered_regions \<Rightarrow> nat" where
  "py_len covered_regions = length (py_iter covered_regions)"

text \<open>
  \<open>filestore_utils.cp\<close> and the pair \<open>open\<close>/\<open>json.load\<close> are collaborators outside this
  module. They are parameters: \<open>cp src dst w\<close> gives the return code and the state of
  the outside world after the copy, \<open>json_load path w\<close> the decoded file or the error
  raised while opening or decoding it. \<open>if ....retcode:\<close> takes the branch for every
  return code other than \<open>0\<close>.
\<close>

definition get_fuzzer_covered_regions ::
  "(string \<Rightarrow> string \<Rightarrow> 'w \<Rightarrow> int \<times> 'w) \<Rightarrow> (string \<Rightarrow> 'w \<Rightarrow> error + 'a covered_regions) \<Rightarrow>
   string \<Rightarrow> string \<Rightarrow> string \<Rightarrow> string \<Rightarrow> 'w \<Rightarrow> (error + 'a covered_regions) \<times> 'w" where
  "get_fuzzer_covered_regions cp json_load fuzzer benchmark filestore temp_dir w =
     (let dst = dst_file temp_dir fuzzer benchmark;
          src = src_file filestore benchmark fuzzer;
          (retcode, w') = cp src dst w
      in if retcode \<noteq> 0 then (Inr EmptyDict, w') else (json_load dst w', w'))"

definition get_fuzzer_benchmark_covered_regions ::
  "(string \<Rightarrow> string \<Rightarrow> 'w \<Rightarrow> int \<times> 'w) \<Rightarrow> (string \<Rightarrow> 'w \<Rightarrow> error + 'a covered_regions) \<Rightarrow>
   string \<times> string \<times> string \<times> string \<Rightarrow> 'w \<Rightarrow>
   (error + string \<times> 'a covered_regions) \<times> 'w" where
  "get_fuzzer_benchmark_covered_regions cp json_load
     fuzzer_and_benchmark_and_filestore_and_temp_dir w =
     (case fuzzer_and_benchmark_and_filestore_and_temp_dir of
        (fuzzer, benchmark, filestore_path, temp_dir) \<Rightarrow>
          (case get_fuzzer_covered_regions cp json_load fuzzer benchmark filestore_path temp_dir w of
             (Inl e, w') \<Rightarrow> (Inl e, w')
           | (Inr fuzzer_benchmark_covered_regions, w') \<Rightarrow>
               (Inr (get_fuzzer_benchmark_key fuzzer benchmark,
                     fuzzer_benchmark_covered_regions), w')))"

section \<open>Unique regions\<close>

definition threshold_count :: nat where
  "threshold_count = 1"

text \<open>
  \<open>region_dict[region].append(fuzzer)\<close> on the \<open>defaultdict(list)\<close>: the list read
  (the default \<open>[]\<close> for a region not seen before) is extended in place.
\<close>

definition region_dict_append ::
  "('r \<times> 'f list) list \<Rightarrow> 'r \<Rightarrow> 'f \<Rightarrow> ('r \<times> 'f list) list" where
  "region_dict_append region_dict region fuzzer =
     (case defaultdict_getitem [] region_dict region of
        (fuzzers, region_dict') \<Rightarrow> AList.update region (fuzzers @ [fuzzer]) region_dict')"

text \<open>
  \<open>get_unique_region_dict\<close>. Its argument maps a fuzzer to its set of regions. The first
  loop visits the fuzzers in the order of the dictionary and the regions of each in the
  order of the set (\<open>for fuzzer in d: for region in d[fuzzer]\<close> visits the items of \<open>d\<close>);
  the second loop copies the entries with at most \<open>threshold_count\<close> fuzzers.
\<close>

definition build_region_dict :: "('f \<times> 'r list) list \<Rightarrow> ('r \<times> 'f list) list" where
  "build_region_dict benchmark_coverage_dict =
     fold (\<lambda>(fuzzer, regions) region_dict.
             fold (\<lambda>region region_dict. region_dict_append region_dict region fuzzer)
               regions region_dict)
       benchmark_coverage_dict []"

definition get_unique_region_dict :: "('f \<times> 'r list) list \<Rightarrow> ('r \<times> 'f list) list" where
  "get_unique_region_dict benchmark_coverage_dict =
     fold (\<lambda>(region, fuzzers) unique_region_dict.
             if length fuzzers \<le> threshold_count
             then AList.update region fuzzers unique_region_dict
             else unique_region_dict)
       (build_region_dict benchmark_coverage_dict) []"

text \<open>
  The data frame \<open>get_unique_region_cov_df\<close> returns: its columns \<open>'fuzzer'\<close> and
  \<open>'unique_regions_covered'\<close>, row by row.
\<close>

record unique_region_cov_df =
  uniq_fuzzer :: "string list"
  unique_regions_covered :: "nat list"

text \<open>
  \<open>fuzzers[fuzzer] += 1\<close> on the \<open>defaultdict(int)\<close>, and the first loop of
  \<open>get_unique_region_cov_df\<close> (\<open>for region in d: for fuzzer in d[region]\<close> visits the
  items of \<open>d\<close>). The second loop reads \<open>fuzzers[fuzzer]\<close> for every listed name, which
  stores \<open>0\<close> for a name not counted before.
\<close>

definition fuzzers_increment :: "('f \<times> nat) list \<Rightarrow> 'f \<Rightarrow> ('f \<times> nat) list" where
  "fuzzers_increment fuzzers fuzzer =
     (case defaultdict_getitem 0 fuzzers fuzzer of
        (n, fuzzers') \<Rightarrow> AList.update fuzzer (n + 1) fuzzers')"

definition count_unique_regions :: "('r \<times> 'f list) list \<Rightarrow> ('f \<times> nat) list" where
  "count_unique_regions unique_region_dict =
     fold (\<lambda>(region, owners) fuzzers.
             fold (\<lambda>fuzzer fuzzers. fuzzers_increment fuzzers fuzzer) owners fuzzers)
       unique_region_dict []"

definition get_unique_region_cov_df ::
  "('r \<times> string list) list \<Rightarrow> string list \<Rightarrow> unique_region_cov_df" where
  "get_unique_region_cov_df unique_region_dict fuzzer_names =
     snd (fold (\<lambda>fuzzer (fuzzers, dict_to_transform).
                  case defaultdict_getitem 0 fuzzers fuzzer of
                    (covered_num, fuzzers') \<Rightarrow>
                      (fuzzers',
                       dict_to_transform
                         \<lparr>uniq_fuzzer := uniq_fuzzer dict_to_transform @ [fuzzer],
                          unique_regions_covered :=
                            unique_regions_covered dict_to_transform @ [covered_num]\<rparr>))
            fuzzer_names
            (count_unique_regions unique_region_dict,
             \<lparr>uniq_fuzzer = [], unique_regions_covered = []\<rparr>))"

section \<open>Per-benchmark aggregation\<close>

text \<open>
  \<open>tuple(region)\<close> keeps the elements of the JSON array in order; a tuple is the list of
  its elements. \<open>s.add(x)\<close> leaves a set that already has \<open>x\<close> as it is.
\<close>

definition tuple :: "'a list \<Rightarrow> 'a list" where
  "tuple region = region"

definition set_add :: "'a list \<Rightarrow> 'a \<Rightarrow> 'a list" where
  "set_add s x = (if x \<in> set s then s else s @ [x])"

definition covered_regions_in_set :: "'a covered_regions \<Rightarrow> 'a list list" where
  "covered_regions_in_set covered_regions =
     fold (\<lambda>region s. set_add s (tuple region)) (py_iter covered_regions) []"

fun benchmark_cov_dict_loop ::
  "(string \<times> 'a covered_regions) list \<Rightarrow> string \<Rightarrow> (string \<times> 'a list list) list \<Rightarrow>
   error + (string \<times> 'a list list) list" where
  "benchmark_cov_dict_loop [] benchmark benchmark_cov_dict = Inr benchmark_cov_dict"
| "benchmark_cov_dict_loop ((key_pair, covered_regions) # items) benchmark benchmark_cov_dict =
     (case split_key_pair key_pair of
        Inl e \<Rightarrow> Inl e
      | Inr (current_fuzzer, current_benchmark) \<Rightarrow>
          if current_benchmark = benchmark
          then benchmark_cov_dict_loop items benchmark
                 (AList.update current_fuzzer (covered_regions_in_set covered_regions)
                    benchmark_cov_dict)
          else benchmark_cov_dict_loop items benchmark benchmark_cov_dict)"

definition get_benchmark_cov_dict ::
  "(string \<times> 'a covered_regions) list \<Rightarrow> string \<Rightarrow> error + (string \<times> 'a list list) list" where
  "get_benchmark_cov_dict coverage_dict benchmark =
     benchmark_cov_dict_loop coverage_dict benchmark []"

text \<open>
  The data frame \<open>get_benchmark_aggregated_cov_df\<close> returns: its columns \<open>'fuzzer'\<close> and
  \<open>'aggregated_edges_covered'\<close>, row by row.
\<close>

record aggregated_cov_df =
  agg_fuzzer :: "string list"
  aggregated_edges_covered :: "nat list"

fun aggregated_cov_df_loop ::
  "(string \<times> 'a covered_regions) list \<Rightarrow> string \<Rightarrow> aggregated_cov_df \<Rightarrow>
   error + aggregated_cov_df" where
  "aggregated_cov_df_loop [] benchmark dict_to_transform = Inr dict_to_transform"
| "aggregated_cov_df_loop ((key_pair, covered_regions) # items) benchmark dict_to_transform =
     (case split_key_pair key_pair of
        Inl e \<Rightarrow> Inl e
      | Inr (current_fuzzer, current_benchmark) \<Rightarrow>
          if current_benchmark = benchmark
          then aggregated_cov_df_loop items benchmark
                 (dict_to_transform
                    \<lparr>agg_fuzzer := agg_fuzzer dict_to_transform @ [current_fuzzer],
                     aggregated_edges_covered :=
                       aggregated_edges_covered dict_to_transform @ [py_len covered_regions]\<rparr>)
          else aggregated_cov_df_loop items benchmark dict_to_transform)"

definition get_benchmark_aggregated_cov_df ::
  "(string \<times> 'a covered_regions) list \<Rightarrow> string \<Rightarrow> error + aggregated_cov_df" where
  "get_benchmark_aggregated_cov_df coverage_dict benchmark =
     aggregated_cov_df_loop coverage_dict benchmark
       \<lparr>agg_fuzzer = [], aggregated_edges_covered = []\<rparr>"

section \<open>Pairwise unique coverage\<close>

text \<open>
  \<open>get_unique_covered_percentage\<close>: the counter goes up for every region of the column's
  fuzzer that is not among the regions of the row's fuzzer.
\<close>

definition get_unique_covered_percentage :: "'r list \<Rightarrow> 'r list \<Rightarrow> nat" where
  "get_unique_covered_percentage fuzzer_row_covered_regions fuzzer_col_covered_regions =
     fold (\<lambda>region unique_region_count.
             if region \<notin> set fuzzer_row_covered_regions
             then unique_region_count + 1 else unique_region_count)
       fuzzer_col_covered_regions 0"

text \<open>
  The data frame \<open>get_pairwise_unique_coverage_table\<close> returns: the row labels
  (\<open>index\<close>), the column labels and the rows of cells.
\<close>

record pairwise_unique_coverage_table =
  index :: "string list"
  columns :: "string list"
  cells :: "nat list list"

text \<open>The inner loop: one row, cell by cell. Both subscripts can raise \<open>KeyError\<close>.\<close>

fun pairwise_row ::
  "(string \<times> 'r list) list \<Rightarrow> string \<Rightarrow> string list \<Rightarrow> nat list \<Rightarrow> error + nat list" where
  "pairwise_row benchmark_coverage_dict fuzzer_in_row [] row = Inr row"
| "pairwise_row benchmark_coverage_dict fuzzer_in_row (fuzzer_in_col # fuzzers) row =
     (case dict_getitem benchmark_coverage_dict fuzzer_in_row of
        Inl e \<Rightarrow> Inl e
      | Inr fuzzer_row_covered_regions \<Rightarrow>
          (case dict_getitem benchmark_coverage_dict fuzzer_in_col of
             Inl e \<Rightarrow> Inl e
           | Inr fuzzer_col_covered_regions \<Rightarrow>
               pairwise_row benchmark_coverage_dict fuzzer_in_row fuzzers
                 (row @ [get_unique_covered_percentage fuzzer_row_covered_regions
                           fuzzer_col_covered_regions])))"

text \<open>The outer loop: \<open>rows\<close> are the fuzzers still to get a row.\<close>

fun pairwise_rows ::
  "(string \<times> 'r list) list \<Rightarrow> string list \<Rightarrow> string list \<Rightarrow> nat list list \<Rightarrow>
   error + nat list list" where
  "pairwise_rows benchmark_coverage_dict fuzzers [] pairwise_unique_coverage_values =
     Inr pairwise_unique_coverage_values"
| "pairwise_rows benchmark_coverage_dict fuzzers (fuzzer_in_row # rows)
     pairwise_unique_coverage_values =
     (case pairwise_row benchmark_coverage_dict fuzzer_in_row fuzzers [] of
        Inl e \<Rightarrow> Inl e
      | Inr row \<Rightarrow>
          pairwise_rows benchmark_coverage_dict fuzzers rows
            (pairwise_unique_coverage_values @ [row]))"

definition get_pairwise_unique_coverage_table ::
  "(string \<times> 'r list) list \<Rightarrow> string list \<Rightarrow> error + pairwise_unique_coverage_table" where
  "get_pairwise_unique_coverage_table benchmark_coverage_dict fuzzers =
     (case pairwise_rows benchmark_coverage_dict fuzzers fuzzers [] of
        Inl e \<Rightarrow> Inl e
      | Inr pairwise_unique_coverage_values \<Rightarrow>
          Inr \<lparr>index = fuzzers, columns = fuzzers, cells = pairwise_unique_coverage_values\<rparr>)"

section \<open>Notions the statements use\<close>

text \<open>\<open>d.get(k, dflt)\<close>: what a \<open>defaultdict\<close> with default \<open>dflt\<close> reads under \<open>k\<close>.\<close>

definition lookup_default :: "'v \<Rightarrow> ('k \<times> 'v) list \<Rightarrow> 'k \<Rightarrow> 'v" where
  "lookup_default dflt d k = (case map_of d k of None \<Rightarrow> dflt | Some v \<Rightarrow> v)"

text \<open>A string has a character that \<open>str.split()\<close> takes for whitespace.\<close>

definition contains_whitespace :: "string \<Rightarrow> bool" where
  "contains_whitespace s = list_ex py_isspace s"

text \<open>
  A path that \<open>posixpath.join\<close> extends with a separator (it is not empty and does not
  end with one), and a component that it appends as it is (not empty, no separator at
  either end).
\<close>

definition open_path :: "string \<Rightarrow> bool" where
  "open_path s \<longleftrightarrow> s \<noteq> [] \<and> last s \<noteq> CHR ''/''"

definition path_component :: "string \<Rightarrow> bool" where
  "path_component s \<longleftrightarrow> s \<noteq> [] \<and> hd s \<noteq> CHR ''/'' \<and> last s \<noteq> CHR ''/''"

text \<open>
  The fuzzers of a per-fuzzer mapping whose region set has \<open>region\<close>, in the order of
  the mapping.
\<close>

definition covering_fuzzers :: "('f \<times> 'r list) list \<Rightarrow> 'r \<Rightarrow> 'f list" where
  "covering_fuzzers benchmark_coverage_dict region =
     map fst (filter (\<lambda>(fuzzer, regions). region \<in> set regions) benchmark_coverage_dict)"

text \<open>
  The entries of a coverage dictionary that belong to \<open>benchmark\<close>, each with the fuzzer
  its key names: what both loops over \<open>coverage_dict.items()\<close> select when every key
  splits into two words.
\<close>

definition benchmark_entries ::
  "(string \<times> 'a covered_regions) list \<Rightarrow> string \<Rightarrow> (string \<times> 'a covered_regions) list" where
  "benchmark_entries coverage_dict benchmark =
     List.map_filter
       (\<lambda>(key_pair, covered_regions).
          case split_key_pair key_pair of
            Inl e \<Rightarrow> None
          | Inr (current_fuzzer, current_benchmark) \<Rightarrow>
              if current_benchmark = benchmark then Some (current_fuzzer, covered_regions)
              else None)
       coverage_dict"

text \<open>
  The first loop of \<open>get_unique_region_dict\<close> started from any \<open>region_dict\<close>, and what
  the loop keeps true of it: the regions are pairwise different keys and none has an
  empty list of fuzzers.
\<close>

definition region_dict_from ::
  "('f \<times> 'r list) list \<Rightarrow> ('r \<times> 'f list) list \<Rightarrow> ('r \<times> 'f list) list" where
  "region_dict_from benchmark_coverage_dict region_dict =
     fold (\<lambda>(fuzzer, regions) region_dict.
             fold (\<lambda>region region_dict. region_dict_append region_dict region fuzzer)
               regions region_dict)
       benchmark_coverage_dict region_dict"

definition region_dict_inv :: "('r \<times> 'f list) list \<Rightarrow> bool" where
  "region_dict_inv region_dict \<longleftrightarrow>
     distinct (map fst region_dict) \<and> list_all (\<lambda>(region, fuzzers). fuzzers \<noteq> []) region_dict"

section \<open>Keys: encoding and splitting\<close>

lemma py_isspace_space: "py_isspace CHR '' ''"
  by (simp add: py_isspace_def)

lemma py_split_from_word:
  "\<not> contains_whitespace a \<Longrightarrow> py_split_from word (a @ rest) = py_split_from (word @ a) rest"
  by (induction a arbitrary: word) (simp_all add: contains_whitespace_def)

lemma py_split_key:
  assumes "fuzzer \<noteq> []" "benchmark \<noteq> []"
    and "\<not> contains_whitespace fuzzer" "\<not> contains_whitespace benchmark"
  shows "py_split (get_fuzzer_benchmark_key fuzzer benchmark) = [fuzzer, benchmark]"
proof -
  have "py_split (get_fuzzer_benchmark_key fuzzer benchmark)
      = py_split_from fuzzer (CHR '' '' # benchmark)"
    using py_split_from_word [OF assms(3), of "[]" "CHR '' '' # benchmark"]
    by (simp add: py_split_def get_fuzzer_benchmark_key_def)
  also have "\<dots> = fuzzer # py_split_from [] (benchmark @ [])"
    using assms(1) by (simp add: py_isspace_space)
  also have "\<dots> = [fuzzer, benchmark]"
    using assms(2) py_split_from_word [OF assms(4), of "[]" "[]"] by simp
  finally show ?thesis .
qed

lemma split_key_pair_key:
  assumes "fuzzer \<noteq> []" "benchmark \<noteq> []"
    and "\<not> contains_whitespace fuzzer" "\<not> contains_whitespace benchmark"
  shows "split_key_pair (get_fuzzer_benchmark_key fuzzer benchmark) = Inr (fuzzer, benchmark)"
  by (simp add: split_key_pair_def py_split_key [OF assms])

lemma unpack_pair_error: "length xs \<noteq> 2 \<Longrightarrow> unpack_pair xs = Inl ValueError"
  by (cases xs rule: unpack_pair.cases) simp_all

lemma unpack_pair_ok: "length xs = 2 \<Longrightarrow> unpack_pair xs = Inr (xs ! 0, xs ! 1)"
  by (cases xs rule: unpack_pair.cases) simp_all

lemma split_key_pair_error:
  "length (py_split key_pair) \<noteq> 2 \<Longrightarrow> split_key_pair key_pair = Inl ValueError"
  by (simp add: split_key_pair_def unpack_pair_error)

lemma split_key_pair_ok:
  "length (py_split key_pair) = 2 \<Longrightarrow> \<exists>f b. split_key_pair key_pair = Inr (f, b)"
  by (simp add: split_key_pair_def unpack_pair_ok)

lemma split_key_pair_Inl: "split_key_pair key_pair = Inl e \<Longrightarrow> e = ValueError"
  unfolding split_key_pair_def
  by (cases "py_split key_pair" rule: unpack_pair.cases) simp_all

section \<open>The loops over a coverage dictionary\<close>

lemma benchmark_cov_dict_loop_error:
  "(key_pair, covered_regions) \<in> set items \<Longrightarrow> length (py_split key_pair) \<noteq> 2 \<Longrightarrow>
   benchmark_cov_dict_loop items benchmark acc = Inl ValueError"
proof (induction items benchmark acc rule: benchmark_cov_dict_loop.induct)
  case (1 benchmark acc)
  then show ?case by simp
next
  case (2 k c items benchmark acc)
  show ?case
  proof (cases "split_key_pair k")
    case (Inl e)
    then show ?thesis using split_key_pair_Inl [OF Inl] by simp
  next
    case (Inr p)
    then have "k \<noteq> key_pair" using split_key_pair_error [OF "2.prems"(2)] by auto
    then have mem: "(key_pair, covered_regions) \<in> set items" using "2.prems"(1) by simp
    obtain f b where p: "p = (f, b)" by (cases p)
    show ?thesis using Inr p "2.IH"(1) [OF Inr p [symmetric] _ mem "2.prems"(2)]
        "2.IH"(2) [OF Inr p [symmetric] _ mem "2.prems"(2)]
      by simp
  qed
qed

lemma aggregated_cov_df_loop_error:
  "(key_pair, covered_regions) \<in> set items \<Longrightarrow> length (py_split key_pair) \<noteq> 2 \<Longrightarrow>
   aggregated_cov_df_loop items benchmark acc = Inl ValueError"
proof (induction items benchmark acc rule: aggregated_cov_df_loop.induct)
  case (1 benchmark acc)
  then show ?case by simp
next
  case (2 k c items benchmark acc)
  show ?case
  proof (cases "split_key_pair k")
    case (Inl e)
    then show ?thesis using split_key_pair_Inl [OF Inl] by simp
  next
    case (Inr p)
    then have "k \<noteq> key_pair" using split_key_pair_error [OF "2.prems"(2)] by auto
    then have mem: "(key_pair, covered_regions) \<in> set items" using "2.prems"(1) by simp
    obtain f b where p: "p = (f, b)" by (cases p)
    show ?thesis using Inr p "2.IH"(1) [OF Inr p [symmetric] _ mem "2.prems"(2)]
        "2.IH"(2) [OF Inr p [symmetric] _ mem "2.prems"(2)]
      by simp
  qed
qed

lemma benchmark_entries_Nil: "benchmark_entries [] benchmark = []"
  by (simp add: benchmark_entries_def List.map_filter_simps)

lemma benchmark_entries_Cons:
  "benchmark_entries ((k, c) # items) benchmark =
     (case split_key_pair k of
        Inl e \<Rightarrow> benchmark_entries items benchmark
      | Inr (f, b) \<Rightarrow>
          if b = benchmark then (f, c) # benchmark_entries items benchmark
          else benchmark_entries items benchmark)"
  by (simp add: benchmark_entries_def List.map_filter_simps split: sum.splits prod.splits)

lemma aggregated_cov_df_loop_ok:
  "\<forall>(key_pair, covered_regions) \<in> set items. length (py_split key_pair) = 2 \<Longrightarrow>
   aggregated_cov_df_loop items benchmark acc =
     Inr \<lparr>agg_fuzzer = agg_fuzzer acc @ map fst (benchmark_entries items benchmark),
          aggregated_edges_covered =
            aggregated_edges_covered acc @
            map (\<lambda>(fuzzer, covered_regions). py_len covered_regions)
              (benchmark_entries items benchmark)\<rparr>"
proof (induction items arbitrary: acc)
  case Nil
  then show ?case by (simp add: benchmark_entries_Nil)
next
  case (Cons x items)
  obtain k c where x: "x = (k, c)" by (cases x)
  have "length (py_split k) = 2" using Cons.prems x by simp
  then obtain f b where s: "split_key_pair k = Inr (f, b)"
    using split_key_pair_ok by blast
  have rest: "\<forall>(key_pair, covered_regions) \<in> set items. length (py_split key_pair) = 2"
    using Cons.prems by simp
  show ?case
    by (simp add: x s benchmark_entries_Cons Cons.IH [OF rest])
qed

lemma get_benchmark_aggregated_cov_df_ok:
  "\<forall>(key_pair, covered_regions) \<in> set coverage_dict. length (py_split key_pair) = 2 \<Longrightarrow>
   get_benchmark_aggregated_cov_df coverage_dict benchmark =
     Inr \<lparr>agg_fuzzer = map fst (benchmark_entries coverage_dict benchmark),
          aggregated_edges_covered =
            map (\<lambda>(fuzzer, covered_regions). py_len covered_regions)
              (benchmark_entries coverage_dict benchmark)\<rparr>"
  by (simp add: get_benchmark_aggregated_cov_df_def aggregated_cov_df_loop_ok)

lemma benchmark_cov_dict_loop_ok:
  "\<forall>(key_pair, covered_regions) \<in> set items. length (py_split key_pair) = 2 \<Longrightarrow>
   benchmark_cov_dict_loop items benchmark acc =
     Inr (fold (\<lambda>(fuzzer, covered_regions).
                  AList.update fuzzer (covered_regions_in_set covered_regions))
            (benchmark_entries items benchmark) acc)"
proof (induction items arbitrary: acc)
  case Nil
  then show ?case by (simp add: benchmark_entries_Nil)
next
  case (Cons x items)
  obtain k c where x: "x = (k, c)" by (cases x)
  have "length (py_split k) = 2" using Cons.prems x by simp
  then obtain f b where s: "split_key_pair k = Inr (f, b)"
    using split_key_pair_ok by blast
  have rest: "\<forall>(key_pair, covered_regions) \<in> set items. length (py_split key_pair) = 2"
    using Cons.prems by simp
  show ?case
    by (simp add: x s benchmark_entries_Cons Cons.IH [OF rest])
qed

section \<open>Region sets built with \<open>add\<close>\<close>

lemma set_add_fold:
  "set (fold (\<lambda>region s. set_add s (tuple region)) regions s) = set s \<union> set regions"
  by (induction regions arbitrary: s) (auto simp: set_add_def tuple_def)

lemma distinct_add_fold:
  "distinct s \<Longrightarrow> distinct (fold (\<lambda>region s. set_add s (tuple region)) regions s)"
  by (induction regions arbitrary: s) (auto simp: set_add_def tuple_def)

lemma set_covered_regions_in_set:
  "set (covered_regions_in_set covered_regions) = set (py_iter covered_regions)"
  by (simp add: covered_regions_in_set_def set_add_fold)

lemma distinct_covered_regions_in_set: "distinct (covered_regions_in_set covered_regions)"
  by (simp add: covered_regions_in_set_def distinct_add_fold)

lemma length_covered_regions_in_set:
  "length (covered_regions_in_set covered_regions) = card (set (py_iter covered_regions))"
  using distinct_card [OF distinct_covered_regions_in_set, of covered_regions]
  by (simp add: set_covered_regions_in_set)

lemma py_len_eq_card_iff:
  "py_len covered_regions = length (covered_regions_in_set covered_regions) \<longleftrightarrow>
   distinct (py_iter covered_regions)"
  unfolding py_len_def length_covered_regions_in_set
  by (metis card_distinct distinct_card)

section \<open>Claims about the key\<close>

text \<open>
  C7, as stated, fails for an empty name: a name without any character has no
  whitespace, but the key \<open>" libpng"\<close> of the empty fuzzer name and \<open>libpng\<close> splits into
  the single word \<open>libpng\<close>, and the unpacking into two names raises \<open>ValueError\<close>.
\<close>

theorem C7_empty_name_counterexample:
  "\<not> contains_whitespace [] \<and> \<not> contains_whitespace ''libpng'' \<and>
   get_fuzzer_benchmark_key [] ''libpng'' = '' libpng'' \<and>
   py_split (get_fuzzer_benchmark_key [] ''libpng'') = [''libpng''] \<and>
   split_key_pair (get_fuzzer_benchmark_key [] ''libpng'') = Inl ValueError"
  by (simp add: contains_whitespace_def split_key_pair_def get_fuzzer_benchmark_key_def
      py_split_def py_isspace_def)

text \<open>
  C7, amended: for every fuzzer name and benchmark name that are not empty and contain
  no whitespace, \<open>get_fuzzer_benchmark_key\<close> gives \<open>"<fuzzer> <benchmark>"\<close> with a single
  space in between, and splitting that key at whitespace and unpacking the words, as
  \<open>get_benchmark_cov_dict\<close> does, gives back the pair (fuzzer, benchmark).
\<close>

theorem C7_key_round_trip:
  assumes "fuzzer \<noteq> []" and "benchmark \<noteq> []"
    and "\<not> contains_whitespace fuzzer" and "\<not> contains_whitespace benchmark"
  shows "get_fuzzer_benchmark_key fuzzer benchmark = fuzzer @ '' '' @ benchmark \<and>
         py_split (get_fuzzer_benchmark_key fuzzer benchmark) = [fuzzer, benchmark] \<and>
         split_key_pair (get_fuzzer_benchmark_key fuzzer benchmark) = Inr (fuzzer, benchmark)"
  using py_split_key [OF assms] split_key_pair_key [OF assms]
  by (simp add: get_fuzzer_benchmark_key_def)

theorem C7_key_round_trip_witness:
  "get_fuzzer_benchmark_key ''afl'' ''libpng-1.2.56'' = ''afl libpng-1.2.56'' \<and>
   py_split (get_fuzzer_benchmark_key ''afl'' ''libpng-1.2.56'') = [''afl'', ''libpng-1.2.56''] \<and>
   split_key_pair (get_fuzzer_benchmark_key ''afl'' ''libpng-1.2.56'') =
     Inr (''afl'', ''libpng-1.2.56'')"
proof -
  have ne: "''afl'' \<noteq> []" "''libpng-1.2.56'' \<noteq> []" by simp_all
  have ws: "\<not> contains_whitespace ''afl''" "\<not> contains_whitespace ''libpng-1.2.56''"
    by (simp_all add: contains_whitespace_def py_isspace_def)
  show ?thesis
    using C7_key_round_trip [OF ne ws] by (simp add: get_fuzzer_benchmark_key_def)
qed

text \<open>
  C10: when some key of the coverage dictionary does not split into exactly two words,
  \<open>get_benchmark_cov_dict\<close> and \<open>get_benchmark_aggregated_cov_df\<close> both end in
  \<open>ValueError\<close>, for every target benchmark and wherever the key stands in the
  dictionary: no entry is skipped and no partial result is returned.
\<close>

theorem C10_malformed_key_raises:
  assumes "(key_pair, covered_regions) \<in> set coverage_dict"
    and "length (py_split key_pair) \<noteq> 2"
  shows "get_benchmark_cov_dict coverage_dict benchmark = Inl ValueError \<and>
         get_benchmark_aggregated_cov_df coverage_dict benchmark = Inl ValueError"
  unfolding get_benchmark_cov_dict_def get_benchmark_aggregated_cov_df_def
  using benchmark_cov_dict_loop_error [OF assms] aggregated_cov_df_loop_error [OF assms]
  by simp

theorem C10_malformed_key_raises_witness:
  "py_split ''my fuzzer libpng'' = [''my'', ''fuzzer'', ''libpng''] \<and>
   get_benchmark_cov_dict
     [(''afl libpng'', RegionList [[1, 2 :: nat]]),
      (''my fuzzer libpng'', RegionList [[3, 4]])] ''libpng'' = Inl ValueError \<and>
   get_benchmark_aggregated_cov_df
     [(''afl libpng'', RegionList [[1, 2 :: nat]]),
      (''my fuzzer libpng'', RegionList [[3, 4]])] ''libpng'' = Inl ValueError"
proof -
  have s: "py_split ''my fuzzer libpng'' = [''my'', ''fuzzer'', ''libpng'']"
    by (simp add: py_split_def py_isspace_def)
  have m: "(''my fuzzer libpng'', RegionList [[3, 4 :: nat]]) \<in>
      set [(''afl libpng'', RegionList [[1, 2]]), (''my fuzzer libpng'', RegionList [[3, 4]])]"
    by simp
  have l: "length (py_split ''my fuzzer libpng'') \<noteq> 2"
    by (simp add: s)
  show ?thesis
    using C10_malformed_key_raises [OF m l, of "''libpng''"] s by simp
qed

section \<open>Dictionaries with a default\<close>

lemma update_fresh: "k \<notin> fst ` set al \<Longrightarrow> AList.update k v al = al @ [(k, v)]"
  by (induction al) auto

lemma set_update_subset: "set (AList.update k v al) \<subseteq> insert (k, v) (set al)"
  by (induction al) auto

lemma fst_defaultdict_getitem:
  "fst (defaultdict_getitem dflt d k) = lookup_default dflt d k"
  by (simp add: defaultdict_getitem_def lookup_default_def split: option.splits)

lemma lookup_default_update:
  "lookup_default dflt (AList.update k v d) k' = (if k' = k then v else lookup_default dflt d k')"
  by (simp add: lookup_default_def update_conv')

lemma lookup_default_snd_getitem:
  "lookup_default dflt (snd (defaultdict_getitem dflt d k)) k' = lookup_default dflt d k'"
  by (auto simp: defaultdict_getitem_def lookup_default_def update_conv' split: option.splits)

lemma region_dict_append_eq:
  "region_dict_append rd region fuzzer =
     AList.update region (lookup_default [] rd region @ [fuzzer]) rd"
  by (simp add: region_dict_append_def defaultdict_getitem_def lookup_default_def
      split: option.splits)

lemma fuzzers_increment_eq:
  "fuzzers_increment fz fuzzer = AList.update fuzzer (lookup_default 0 fz fuzzer + 1) fz"
  by (simp add: fuzzers_increment_def defaultdict_getitem_def lookup_default_def
      split: option.splits)

section \<open>The region dictionary\<close>

lemma region_dict_inv_append:
  "region_dict_inv rd \<Longrightarrow> region_dict_inv (region_dict_append rd region fuzzer)"
  unfolding region_dict_inv_def region_dict_append_eq list_all_iff
  using set_update_subset [of region "lookup_default [] rd region @ [fuzzer]" rd]
  by (auto simp: distinct_update)

lemma lookup_region_dict_append:
  "lookup_default [] (region_dict_append rd region fuzzer) r =
     lookup_default [] rd r @ (if r = region then [fuzzer] else [])"
  by (simp add: region_dict_append_eq lookup_default_update)

lemma region_dict_inv_regions:
  "region_dict_inv rd \<Longrightarrow>
   region_dict_inv (fold (\<lambda>region rd. region_dict_append rd region fuzzer) regions rd)"
  by (induction regions arbitrary: rd) (simp_all add: region_dict_inv_append)

lemma lookup_regions:
  "lookup_default [] (fold (\<lambda>region rd. region_dict_append rd region fuzzer) regions rd) r =
     lookup_default [] rd r @ replicate (count_list regions r) fuzzer"
  by (induction regions arbitrary: rd)
     (simp_all add: lookup_region_dict_append replicate_app_Cons_same)

lemma region_dict_inv_from:
  "region_dict_inv rd \<Longrightarrow> region_dict_inv (region_dict_from d rd)"
  unfolding region_dict_from_def
  by (induction d arbitrary: rd) (auto simp: region_dict_inv_regions)

lemma lookup_from:
  "lookup_default [] (region_dict_from d rd) r =
     lookup_default [] rd r @
       concat (map (\<lambda>(fuzzer, regions). replicate (count_list regions r) fuzzer) d)"
  unfolding region_dict_from_def
  by (induction d arbitrary: rd) (auto simp: lookup_regions)

lemma replicate_count_distinct:
  "distinct regions \<Longrightarrow> replicate (count_list regions r) f = (if r \<in> set regions then [f] else [])"
  by (induction regions) auto

lemma concat_covering:
  "list_all (\<lambda>(fuzzer, regions). distinct regions) d \<Longrightarrow>
   concat (map (\<lambda>(fuzzer, regions). replicate (count_list regions r) fuzzer) d)
     = covering_fuzzers d r"
  by (induction d) (auto simp: covering_fuzzers_def replicate_count_distinct)

lemma build_region_dict_from: "build_region_dict d = region_dict_from d []"
  by (simp add: build_region_dict_def region_dict_from_def)

lemma build_region_dict_inv: "region_dict_inv (build_region_dict d)"
  using region_dict_inv_from [of "[]" d]
  by (simp add: build_region_dict_from region_dict_inv_def)

lemma lookup_build:
  "list_all (\<lambda>(fuzzer, regions). distinct regions) d \<Longrightarrow>
   lookup_default [] (build_region_dict d) r = covering_fuzzers d r"
  using lookup_from [of d "[]" r]
  by (simp add: build_region_dict_from concat_covering lookup_default_def)

lemma region_dict_inv_map_of:
  "region_dict_inv rd \<Longrightarrow>
   map_of rd r = (if lookup_default [] rd r = [] then None else Some (lookup_default [] rd r))"
  by (auto simp: region_dict_inv_def lookup_default_def list_all_iff
      split: option.splits dest!: map_of_SomeD)

lemma fold_update_filter:
  "distinct (map fst (u @ xs)) \<Longrightarrow>
   fold (\<lambda>(k, v) u. if P k v then AList.update k v u else u) xs u
     = u @ filter (\<lambda>(k, v). P k v) xs"
proof (induction xs arbitrary: u)
  case Nil
  then show ?case by simp
next
  case (Cons x xs)
  obtain k v where x: "x = (k, v)" by (cases x)
  show ?case
  proof (cases "P k v")
    case True
    have fresh: "k \<notin> fst ` set u" using Cons.prems x by auto
    have d: "distinct (map fst ((u @ [(k, v)]) @ xs))" using Cons.prems x by simp
    show ?thesis using Cons.IH [OF d] True x by (simp add: update_fresh [OF fresh])
  next
    case False
    have d: "distinct (map fst (u @ xs))" using Cons.prems by simp
    show ?thesis using Cons.IH [OF d] False x by simp
  qed
qed

lemma get_unique_region_dict_filter:
  "get_unique_region_dict d =
     filter (\<lambda>(region, fuzzers). length fuzzers \<le> threshold_count) (build_region_dict d)"
  using fold_update_filter [of "[]" "build_region_dict d" "\<lambda>region fuzzers. length fuzzers \<le> threshold_count"]
    build_region_dict_inv [of d]
  by (simp add: get_unique_region_dict_def region_dict_inv_def)

lemma map_of_filter_distinct:
  "distinct (map fst xs) \<Longrightarrow>
   map_of (filter (\<lambda>(k, v). P k v) xs) k =
     (case map_of xs k of None \<Rightarrow> None | Some v \<Rightarrow> if P k v then Some v else None)"
  by (induction xs) (auto simp: image_iff split: option.splits dest!: map_of_SomeD)

lemma map_of_unique:
  assumes "list_all (\<lambda>(fuzzer, regions). distinct regions) d"
  shows "map_of (get_unique_region_dict d) r =
    (if length (covering_fuzzers d r) = 1 then Some (covering_fuzzers d r) else None)"
proof -
  have inv: "region_dict_inv (build_region_dict d)" by (rule build_region_dict_inv)
  then have dist: "distinct (map fst (build_region_dict d))" by (simp add: region_dict_inv_def)
  show ?thesis
    unfolding get_unique_region_dict_filter map_of_filter_distinct [OF dist]
      region_dict_inv_map_of [OF inv] lookup_build [OF assms] threshold_count_def
    by (cases "covering_fuzzers d r") auto
qed

lemma distinct_unique: "distinct (map fst (get_unique_region_dict d))"
  using build_region_dict_inv [of d]
  by (simp add: get_unique_region_dict_filter region_dict_inv_def distinct_map_filter)

lemma unique_single_owner:
  "(region, owners) \<in> set (get_unique_region_dict d) \<Longrightarrow> length owners = 1"
  using build_region_dict_inv [of d]
  by (cases owners)
     (auto simp: get_unique_region_dict_filter region_dict_inv_def threshold_count_def list_all_iff)

lemma keys_iff_map_of: "k \<in> fst ` set al \<longleftrightarrow> map_of al k \<noteq> None"
  by (simp add: map_of_eq_None_iff)

section \<open>Counting unique regions\<close>

lemma lookup_increment:
  "lookup_default 0 (fuzzers_increment fz fuzzer) f =
     lookup_default 0 fz f + (if f = fuzzer then 1 else 0)"
  by (simp add: fuzzers_increment_eq lookup_default_update)

lemma lookup_increment_owners:
  "lookup_default 0 (fold (\<lambda>fuzzer fz. fuzzers_increment fz fuzzer) owners fz) f =
     lookup_default 0 fz f + count_list owners f"
  by (induction owners arbitrary: fz) (simp_all add: lookup_increment)

lemma lookup_count_from:
  "lookup_default 0
     (fold (\<lambda>(region, owners) fz. fold (\<lambda>fuzzer fz. fuzzers_increment fz fuzzer) owners fz) u fz) f =
   lookup_default 0 fz f + count_list (concat (map snd u)) f"
  by (induction u arbitrary: fz) (auto simp: lookup_increment_owners)

lemma lookup_count_unique_regions:
  "lookup_default 0 (count_unique_regions u) f = count_list (concat (map snd u)) f"
  using lookup_count_from [of u "[]" f]
  by (simp add: count_unique_regions_def lookup_default_def)

lemma cov_df_fold:
  "snd (fold (\<lambda>fuzzer (fuzzers, dict_to_transform).
                  case defaultdict_getitem 0 fuzzers fuzzer of
                    (covered_num, fuzzers') \<Rightarrow>
                      (fuzzers',
                       dict_to_transform
                         \<lparr>uniq_fuzzer := uniq_fuzzer dict_to_transform @ [fuzzer],
                          unique_regions_covered :=
                            unique_regions_covered dict_to_transform @ [covered_num]\<rparr>))
            names (fz, df)) =
   \<lparr>uniq_fuzzer = uniq_fuzzer df @ names,
    unique_regions_covered = unique_regions_covered df @ map (lookup_default (0::nat) fz) names\<rparr>"
proof (induction names arbitrary: fz df)
  case Nil
  then show ?case by simp
next
  case (Cons n names)
  obtain v fz' where g: "defaultdict_getitem 0 fz n = (v, fz')"
    by (cases "defaultdict_getitem 0 fz n")
  have v: "v = lookup_default 0 fz n"
    using fst_defaultdict_getitem [of 0 fz n] g by simp
  have fz': "lookup_default 0 fz' = lookup_default 0 fz"
    using lookup_default_snd_getitem [of 0 fz n] g by (simp add: fun_eq_iff)
  show ?case
    by (simp add: g Cons.IH v fz')
qed

lemma get_unique_region_cov_df_eq:
  "get_unique_region_cov_df u names =
     \<lparr>uniq_fuzzer = names,
      unique_regions_covered = map (count_list (concat (map snd u))) names\<rparr>"
  unfolding get_unique_region_cov_df_def cov_df_fold
  by (simp add: lookup_count_unique_regions cong: map_cong)

lemma count_concat_distinct:
  "list_all (\<lambda>(region, owners). distinct owners) u \<Longrightarrow>
   count_list (concat (map snd u)) f = length (filter (\<lambda>(region, owners). f \<in> set owners) u)"
proof (induction u)
  case Nil
  then show ?case by simp
next
  case (Cons x u)
  obtain region owners where x: "x = (region, owners)" by (cases x)
  have d: "distinct owners" using Cons.prems x by simp
  have "count_list owners f = (if f \<in> set owners then 1 else 0)"
    using d by (induction owners) auto
  then show ?case using Cons x by simp
qed

lemma sum_count_names:
  assumes "distinct names" and "set xs \<subseteq> set names"
  shows "sum_list (map (count_list xs) names) = length xs"
  using sum_count_set [OF assms(2)] sum_list_distinct_conv_sum_set [OF assms(1), of "count_list xs"]
  by simp

section \<open>Pairwise unique coverage\<close>

lemma fold_count_filter:
  "fold (\<lambda>region n. if region \<notin> set row then n + 1 else n) col (n0::nat) =
     n0 + length (filter (\<lambda>region. region \<notin> set row) col)"
  by (induction col arbitrary: n0) simp_all

lemma get_unique_covered_percentage_filter:
  "get_unique_covered_percentage row col = length (filter (\<lambda>region. region \<notin> set row) col)"
  by (simp add: get_unique_covered_percentage_def fold_count_filter)

lemma get_unique_covered_percentage_card:
  assumes "distinct col"
  shows "get_unique_covered_percentage row col = card (set col - set row)"
proof -
  have s: "set (filter (\<lambda>region. region \<notin> set row) col) = set col - set row" by auto
  have "distinct (filter (\<lambda>region. region \<notin> set row) col)" using assms by simp
  then have "card (set (filter (\<lambda>region. region \<notin> set row) col)) =
      length (filter (\<lambda>region. region \<notin> set row) col)"
    by (rule distinct_card)
  then show ?thesis
    unfolding get_unique_covered_percentage_filter s by simp
qed

lemma dict_getitem_key:
  "k \<in> fst ` set d \<Longrightarrow> dict_getitem d k = Inr (lookup_default dflt d k)"
  by (auto simp: dict_getitem_def lookup_default_def map_of_eq_None_iff split: option.splits)

lemma dict_getitem_missing: "k \<notin> fst ` set d \<Longrightarrow> dict_getitem d k = Inl KeyError"
  by (simp add: dict_getitem_def map_of_eq_None_iff [THEN iffD2])

lemma pairwise_row_ok:
  "fr \<in> fst ` set d \<Longrightarrow> set fcs \<subseteq> fst ` set d \<Longrightarrow>
   pairwise_row d fr fcs row =
     Inr (row @ map (\<lambda>fc. get_unique_covered_percentage
                             (lookup_default [] d fr) (lookup_default [] d fc)) fcs)"
  by (induction fcs arbitrary: row) (simp_all add: dict_getitem_key [where dflt = "[]"])

lemma pairwise_row_error:
  "\<not> set (fr # fcs) \<subseteq> fst ` set d \<Longrightarrow> fcs \<noteq> [] \<Longrightarrow>
   pairwise_row d fr fcs row = Inl KeyError"
proof (induction fcs arbitrary: row)
  case Nil
  then show ?case by simp
next
  case (Cons fc fcs)
  show ?case
  proof (cases "fr \<in> fst ` set d")
    case False
    then show ?thesis by (simp add: dict_getitem_missing)
  next
    case fr: True
    show ?thesis
    proof (cases "fc \<in> fst ` set d")
      case False
      then show ?thesis using fr
        by (simp add: dict_getitem_missing dict_getitem_key [where dflt = "[]"])
    next
      case True
      then have rest: "\<not> set (fr # fcs) \<subseteq> fst ` set d" using Cons.prems(1) by auto
      then have "fcs \<noteq> []" using fr by auto
      from Cons.IH [OF rest this] show ?thesis using fr True
        by (simp add: dict_getitem_key [where dflt = "[]"])
    qed
  qed
qed

lemma pairwise_rows_ok:
  "set fuzzers \<subseteq> fst ` set d \<Longrightarrow> set rows \<subseteq> fst ` set d \<Longrightarrow>
   pairwise_rows d fuzzers rows acc =
     Inr (acc @ map (\<lambda>fr. map (\<lambda>fc. get_unique_covered_percentage
                                       (lookup_default [] d fr) (lookup_default [] d fc)) fuzzers)
                  rows)"
  by (induction rows arbitrary: acc) (simp_all add: pairwise_row_ok)

lemma pairwise_rows_error:
  "\<not> set fuzzers \<subseteq> fst ` set d \<Longrightarrow> rows \<noteq> [] \<Longrightarrow>
   pairwise_rows d fuzzers rows acc = Inl KeyError"
proof -
  assume m: "\<not> set fuzzers \<subseteq> fst ` set d" and r: "rows \<noteq> []"
  then obtain fr rest where rows: "rows = fr # rest" by (cases rows) auto
  have "fuzzers \<noteq> []" using m by auto
  moreover have "\<not> set (fr # fuzzers) \<subseteq> fst ` set d" using m by auto
  ultimately have "pairwise_row d fr fuzzers [] = Inl KeyError"
    using pairwise_row_error by blast
  then show ?thesis by (simp add: rows)
qed

lemma get_pairwise_ok:
  "set fuzzers \<subseteq> fst ` set d \<Longrightarrow>
   get_pairwise_unique_coverage_table d fuzzers =
     Inr \<lparr>index = fuzzers, columns = fuzzers,
          cells = map (\<lambda>fr. map (\<lambda>fc. get_unique_covered_percentage
                                       (lookup_default [] d fr) (lookup_default [] d fc)) fuzzers)
                    fuzzers\<rparr>"
  by (simp add: get_pairwise_unique_coverage_table_def pairwise_rows_ok)

lemma get_pairwise_error:
  "\<not> set fuzzers \<subseteq> fst ` set d \<Longrightarrow>
   get_pairwise_unique_coverage_table d fuzzers = Inl KeyError"
proof -
  assume m: "\<not> set fuzzers \<subseteq> fst ` set d"
  then have "fuzzers \<noteq> []" by auto
  from pairwise_rows_error [OF m this] show ?thesis
    by (simp add: get_pairwise_unique_coverage_table_def)
qed

lemma lookup_default_distinct:
  "\<forall>(fuzzer, regions) \<in> set d. distinct regions \<Longrightarrow> distinct (lookup_default [] d f)"
  by (auto simp: lookup_default_def split: option.splits dest!: map_of_SomeD)

section \<open>Owners of unique regions\<close>

lemma set_concat_owners:
  "set (concat (map (\<lambda>(fuzzer, regions). replicate (count_list regions r) fuzzer) d))
     \<subseteq> fst ` set d"
  by (induction d) auto

lemma build_region_dict_owners:
  assumes "(region, owners) \<in> set (build_region_dict d)"
  shows "set owners \<subseteq> fst ` set d"
proof -
  have "distinct (map fst (build_region_dict d))"
    using build_region_dict_inv [of d] by (simp add: region_dict_inv_def)
  then have "map_of (build_region_dict d) region = Some owners"
    using assms by simp
  then have "owners = lookup_default [] (build_region_dict d) region"
    by (simp add: lookup_default_def)
  also have "\<dots> = concat (map (\<lambda>(fuzzer, regions). replicate (count_list regions region) fuzzer) d)"
    using lookup_from [of d "[]" region]
    by (simp add: build_region_dict_from lookup_default_def)
  finally show ?thesis using set_concat_owners [of region d] by simp
qed

lemma unique_owners_keys:
  "(region, owners) \<in> set (get_unique_region_dict d) \<Longrightarrow> set owners \<subseteq> fst ` set d"
  using build_region_dict_owners [of region owners d]
  by (simp add: get_unique_region_dict_filter)

lemma count_unique_missing:
  assumes "fuzzer \<notin> fst ` set d"
  shows "count_list (concat (map snd (get_unique_region_dict d))) fuzzer = 0"
proof -
  have "fuzzer \<notin> set (concat (map snd (get_unique_region_dict d)))"
    using assms unique_owners_keys [of _ _ d] by fastforce
  then show ?thesis by (simp add: count_list_0_iff)
qed

lemma unique_region_dict_empty_set:
  "get_unique_region_dict (d @ [(fuzzer, [])]) = get_unique_region_dict d"
  by (simp add: get_unique_region_dict_def build_region_dict_def)

lemma covering_fuzzers_set:
  assumes "distinct (map fst d)"
  shows "distinct (covering_fuzzers d region) \<and>
         set (covering_fuzzers d region) =
           {fuzzer. \<exists>regions. map_of d fuzzer = Some regions \<and> region \<in> set regions}"
  using assms by (auto simp: covering_fuzzers_def distinct_map_filter image_iff)

lemma length_concat_single:
  "\<forall>(region, owners) \<in> set u. length owners = 1 \<Longrightarrow> length (concat (map snd u)) = length u"
  by (induction u) auto

section \<open>What the pipeline hands on\<close>

text \<open>
  The statements below take a per-fuzzer mapping whose values are sets, and an index
  whose owner lists name no fuzzer twice. Both hold of what this module builds: of the
  index of \<open>get_unique_region_dict\<close> and of the mapping of \<open>get_benchmark_cov_dict\<close>.
\<close>

lemma unique_region_dict_owners_distinct:
  "(region, owners) \<in> set (get_unique_region_dict d) \<Longrightarrow> distinct owners"
  using unique_single_owner [of region owners d] by (cases owners) auto

lemma benchmark_cov_dict_loop_sets:
  "benchmark_cov_dict_loop items benchmark acc = Inr d \<Longrightarrow>
   distinct (map fst acc) \<Longrightarrow> list_all (\<lambda>(fuzzer, regions). distinct regions) acc \<Longrightarrow>
   distinct (map fst d) \<and> list_all (\<lambda>(fuzzer, regions). distinct regions) d"
proof (induction items benchmark acc rule: benchmark_cov_dict_loop.induct)
  case (1 benchmark acc)
  then show ?case by simp
next
  case (2 k c items benchmark acc)
  from "2.prems"(1) obtain f b where s: "split_key_pair k = Inr (f, b)"
    by (cases "split_key_pair k") auto
  show ?case
  proof (cases "b = benchmark")
    case True
    let ?acc = "AList.update f (covered_regions_in_set c) acc"
    have r: "benchmark_cov_dict_loop items benchmark ?acc = Inr d"
      using "2.prems"(1) s True by simp
    have k: "distinct (map fst ?acc)" using "2.prems"(2) by (rule distinct_update)
    have v: "list_all (\<lambda>(fuzzer, regions). distinct regions) ?acc"
      using "2.prems"(3) set_update_subset [of f "covered_regions_in_set c" acc]
        distinct_covered_regions_in_set [of c]
      unfolding list_all_iff by blast
    show ?thesis
      by (rule "2.IH"(1) [OF s refl True r k v])
  next
    case False
    have r: "benchmark_cov_dict_loop items benchmark acc = Inr d"
      using "2.prems"(1) s False by simp
    show ?thesis
      by (rule "2.IH"(2) [OF s refl False r "2.prems"(2,3)])
  qed
qed

lemma get_benchmark_cov_dict_sets:
  "get_benchmark_cov_dict coverage_dict benchmark = Inr d \<Longrightarrow>
   distinct (map fst d) \<and> (\<forall>(fuzzer, regions) \<in> set d. distinct regions)"
  using benchmark_cov_dict_loop_sets [of coverage_dict benchmark "[]" d]
  by (simp add: get_benchmark_cov_dict_def list_all_iff)

section \<open>Claims about the pairwise table\<close>

text \<open>
  C1: when every listed fuzzer has a region set in the mapping,
  \<open>get_pairwise_unique_coverage_table\<close> returns a table whose row labels and column
  labels are the fuzzer list in the given order, with as many rows as fuzzers and as
  many cells in every row; the cell in the row of fuzzer \<open>A\<close> and the column of fuzzer
  \<open>B\<close> is the number of regions of \<open>B\<close>'s set that are not in \<open>A\<close>'s set, and every
  cell on the diagonal is \<open>0\<close>. (A listed fuzzer without a set is the subject of C6.)
\<close>

theorem C1_pairwise_table:
  assumes "set fuzzers \<subseteq> fst ` set d"
    and "\<forall>(fuzzer, regions) \<in> set d. distinct regions"
  shows "\<exists>t. get_pairwise_unique_coverage_table d fuzzers = Inr t \<and>
           index t = fuzzers \<and> columns t = fuzzers \<and>
           cells t =
             map (\<lambda>fuzzer_in_row.
                    map (\<lambda>fuzzer_in_col.
                           card (set (lookup_default [] d fuzzer_in_col) -
                                 set (lookup_default [] d fuzzer_in_row)))
                      fuzzers)
               fuzzers \<and>
           length (cells t) = length fuzzers \<and>
           (\<forall>row \<in> set (cells t). length row = length fuzzers) \<and>
           (\<forall>i < length fuzzers. \<forall>j < length fuzzers. \<forall>A B.
              map_of d (fuzzers ! i) = Some A \<longrightarrow> map_of d (fuzzers ! j) = Some B \<longrightarrow>
              cells t ! i ! j = card (set B - set A)) \<and>
           (\<forall>i < length fuzzers. cells t ! i ! i = 0)"
proof -
  let ?L = "lookup_default [] d"
  let ?M = "map (\<lambda>fr. map (\<lambda>fc. card (set (?L fc) - set (?L fr))) fuzzers) fuzzers"
  have c: "get_unique_covered_percentage (?L fr) (?L fc) = card (set (?L fc) - set (?L fr))"
    for fr fc
    by (rule get_unique_covered_percentage_card [OF lookup_default_distinct [OF assms(2)]])
  have t: "get_pairwise_unique_coverage_table d fuzzers =
      Inr \<lparr>index = fuzzers, columns = fuzzers, cells = ?M\<rparr>"
    by (simp add: get_pairwise_ok [OF assms(1)] c)
  have cell: "?M ! i ! j = card (set B - set A)"
    if "i < length fuzzers" "j < length fuzzers"
      "map_of d (fuzzers ! i) = Some A" "map_of d (fuzzers ! j) = Some B" for i j A B
    using that by (simp add: lookup_default_def)
  have diag: "?M ! i ! i = 0" if "i < length fuzzers" for i
    using that by simp
  have len: "\<forall>row \<in> set ?M. length row = length fuzzers" by auto
  show ?thesis
    using t cell diag len by simp
qed

text \<open>
  The scenario of the specification: \<open>a = {1, 2}\<close>, \<open>b = {2, 3}\<close>, fuzzers \<open>[a, b]\<close>.
\<close>

theorem C1_pairwise_table_witness:
  "get_pairwise_unique_coverage_table [(''a'', [1, 2 :: nat]), (''b'', [2, 3])] [''a'', ''b''] =
     Inr \<lparr>index = [''a'', ''b''], columns = [''a'', ''b''], cells = [[0, 1], [1, 0]]\<rparr>"
proof -
  let ?d = "[(''a'', [1, 2 :: nat]), (''b'', [2, 3])]"
  have k: "set [''a'', ''b''] \<subseteq> fst ` set ?d" by simp
  have s: "\<forall>(fuzzer, regions) \<in> set ?d. distinct regions" by simp
  from C1_pairwise_table [OF k s] obtain t where
    t: "get_pairwise_unique_coverage_table ?d [''a'', ''b''] = Inr t"
      "index t = [''a'', ''b'']" "columns t = [''a'', ''b'']"
      "cells t =
             map (\<lambda>fuzzer_in_row.
                    map (\<lambda>fuzzer_in_col.
                           card (set (lookup_default [] ?d fuzzer_in_col) -
                                 set (lookup_default [] ?d fuzzer_in_row)))
                      [''a'', ''b''])
               [''a'', ''b'']"
    by blast
  have "cells t = [[0, 1], [1, 0]]"
    unfolding t(4) by code_simp
  then show ?thesis using t(1,2,3) by (cases t) simp
qed

text \<open>
  C6, as stated, fails for the pairwise table: \<open>benchmark_coverage_dict[fuzzer]\<close> is a
  subscript of a plain \<open>dict\<close>, so a listed fuzzer that is not a key raises \<open>KeyError\<close>
  and no table is produced.
\<close>

theorem C6_missing_fuzzer_counterexample:
  "''libfuzzer'' \<in> set [''afl'', ''libfuzzer''] \<and>
   map_of [(''afl'', [1, 2 :: nat])] ''libfuzzer'' = None \<and>
   get_pairwise_unique_coverage_table [(''afl'', [1, 2 :: nat])] [''afl'', ''libfuzzer''] =
     Inl KeyError"
  by (simp add: get_pairwise_unique_coverage_table_def dict_getitem_def)

text \<open>
  C6, amended: for a fuzzer of the list that is not a key of the per-fuzzer mapping,
  \<open>get_pairwise_unique_coverage_table\<close> raises \<open>KeyError\<close>, while the unique-region count
  table is complete: it has one row per listed fuzzer, the rows of the missing fuzzer
  hold \<open>0\<close>, and the table is the one obtained when the missing fuzzer is stored with an
  empty region set.
\<close>

theorem C6_missing_fuzzer:
  assumes "fuzzer \<in> set fuzzers" and "fuzzer \<notin> fst ` set d"
  shows "get_pairwise_unique_coverage_table d fuzzers = Inl KeyError \<and>
         uniq_fuzzer (get_unique_region_cov_df (get_unique_region_dict d) fuzzers) = fuzzers \<and>
         (\<forall>i < length fuzzers. fuzzers ! i = fuzzer \<longrightarrow>
            unique_regions_covered (get_unique_region_cov_df (get_unique_region_dict d) fuzzers) ! i
              = 0) \<and>
         get_unique_region_cov_df (get_unique_region_dict (AList.update fuzzer [] d)) fuzzers =
           get_unique_region_cov_df (get_unique_region_dict d) fuzzers"
proof -
  have "\<not> set fuzzers \<subseteq> fst ` set d" using assms by auto
  then have p: "get_pairwise_unique_coverage_table d fuzzers = Inl KeyError"
    by (rule get_pairwise_error)
  have e: "get_unique_region_dict (AList.update fuzzer [] d) = get_unique_region_dict d"
    by (simp add: update_fresh [OF assms(2)] unique_region_dict_empty_set)
  show ?thesis
    using p count_unique_missing [OF assms(2)]
    by (simp add: e get_unique_region_cov_df_eq)
qed

theorem C6_missing_fuzzer_witness:
  "get_pairwise_unique_coverage_table [(''afl'', [1, 2 :: nat])] [''afl'', ''libfuzzer''] =
     Inl KeyError \<and>
   get_unique_region_cov_df (get_unique_region_dict [(''afl'', [1, 2 :: nat])])
     [''afl'', ''libfuzzer''] =
     \<lparr>uniq_fuzzer = [''afl'', ''libfuzzer''], unique_regions_covered = [2, 0]\<rparr>"
proof -
  let ?d = "[(''afl'', [1, 2 :: nat])]"
  have m: "''libfuzzer'' \<in> set [''afl'', ''libfuzzer'']" by simp
  have k: "''libfuzzer'' \<notin> fst ` set ?d" by simp
  have t: "get_unique_region_cov_df (get_unique_region_dict ?d) [''afl'', ''libfuzzer''] =
     \<lparr>uniq_fuzzer = [''afl'', ''libfuzzer''], unique_regions_covered = [2, 0]\<rparr>"
    by code_simp
  show ?thesis
    using C6_missing_fuzzer [OF m k] t by simp
qed

section \<open>Claims about unique regions\<close>

text \<open>
  C2: for a per-fuzzer mapping whose values are sets (no region twice in one of them),
  the unique-region index of \<open>get_unique_region_dict\<close> has exactly the regions that occur
  in some fuzzer's set and in at most one (\<open>threshold_count = 1\<close>), each mapped to the
  list of the fuzzers covering it: a region in exactly two fuzzers' sets is not in the
  index, and a region in the set of one fuzzer only is mapped to the list of that one
  fuzzer. \<open>covering_fuzzers d region\<close> lists the fuzzers whose set has the region.
\<close>

theorem C2_unique_region_index:
  assumes "\<forall>(fuzzer, regions) \<in> set d. distinct regions"
  shows "(region \<in> fst ` set (get_unique_region_dict d) \<longleftrightarrow>
            covering_fuzzers d region \<noteq> [] \<and> length (covering_fuzzers d region) \<le> 1) \<and>
         (\<forall>owners. map_of (get_unique_region_dict d) region = Some owners \<longrightarrow>
            owners = covering_fuzzers d region) \<and>
         (length (covering_fuzzers d region) = 2 \<longrightarrow>
            map_of (get_unique_region_dict d) region = None) \<and>
         (\<forall>fuzzer. covering_fuzzers d region = [fuzzer] \<longrightarrow>
            map_of (get_unique_region_dict d) region = Some [fuzzer]) \<and>
         distinct (map fst (get_unique_region_dict d))"
proof -
  have sets: "list_all (\<lambda>(fuzzer, regions). distinct regions) d"
    using assms by (simp add: list_all_iff)
  have m: "map_of (get_unique_region_dict d) region =
      (if length (covering_fuzzers d region) = 1 then Some (covering_fuzzers d region) else None)"
    by (rule map_of_unique [OF sets])
  have "region \<in> fst ` set (get_unique_region_dict d) \<longleftrightarrow>
      length (covering_fuzzers d region) = 1"
    unfolding keys_iff_map_of m by simp
  moreover have "length (covering_fuzzers d region) = 1 \<longleftrightarrow>
      covering_fuzzers d region \<noteq> [] \<and> length (covering_fuzzers d region) \<le> 1"
    by (cases "covering_fuzzers d region") auto
  ultimately show ?thesis
    using m distinct_unique [of d] by auto
qed

text \<open>
  The scenario of the specification: \<open>afl = {1, 2}\<close>, \<open>libfuzzer = {2, 3}\<close>; the index
  is \<open>{1: [afl], 3: [libfuzzer]}\<close>.
\<close>

theorem C2_unique_region_index_witness:
  "1 \<in> fst ` set (get_unique_region_dict [(''afl'', [1, 2 :: nat]), (''libfuzzer'', [2, 3])]) \<and>
   map_of (get_unique_region_dict [(''afl'', [1, 2 :: nat]), (''libfuzzer'', [2, 3])]) 1 =
     Some [''afl''] \<and>
   map_of (get_unique_region_dict [(''afl'', [1, 2 :: nat]), (''libfuzzer'', [2, 3])]) 2 = None \<and>
   map_of (get_unique_region_dict [(''afl'', [1, 2 :: nat]), (''libfuzzer'', [2, 3])]) 3 =
     Some [''libfuzzer'']"
proof -
  let ?d = "[(''afl'', [1, 2 :: nat]), (''libfuzzer'', [2, 3])]"
  have s: "\<forall>(fuzzer, regions) \<in> set ?d. distinct regions" by simp
  have c1: "covering_fuzzers ?d 1 = [''afl'']"
    and c2: "length (covering_fuzzers ?d 2) = 2"
    and c3: "covering_fuzzers ?d 3 = [''libfuzzer'']"
    by (simp_all add: covering_fuzzers_def)
  note t1 = C2_unique_region_index [OF s, of 1]
  note t2 = C2_unique_region_index [OF s, of 2]
  note t3 = C2_unique_region_index [OF s, of 3]
  have k1: "1 \<in> fst ` set (get_unique_region_dict ?d)"
    unfolding t1 [THEN conjunct1] c1 by simp
  have m1: "map_of (get_unique_region_dict ?d) 1 = Some [''afl'']"
    by (rule t1 [THEN conjunct2, THEN conjunct2, THEN conjunct2, THEN conjunct1, rule_format, OF c1])
  have m2: "map_of (get_unique_region_dict ?d) 2 = None"
    by (rule t2 [THEN conjunct2, THEN conjunct2, THEN conjunct1, rule_format, OF c2])
  have m3: "map_of (get_unique_region_dict ?d) 3 = Some [''libfuzzer'']"
    by (rule t3 [THEN conjunct2, THEN conjunct2, THEN conjunct2, THEN conjunct1, rule_format, OF c3])
  show ?thesis
    using k1 m1 m2 m3 by blast
qed

text \<open>
  C4: for a unique-region index (no fuzzer twice in the owner list of a region),
  \<open>get_unique_region_cov_df\<close> returns one row per name of the fuzzer-name list, in the
  order of the list; the count of a fuzzer is the number of regions of the index whose
  owner list has the fuzzer, and a listed fuzzer that is in no owner list has the
  count \<open>0\<close>.
\<close>

theorem C4_unique_region_counts:
  assumes "\<forall>(region, owners) \<in> set unique_region_dict. distinct owners"
  shows "uniq_fuzzer (get_unique_region_cov_df unique_region_dict fuzzer_names) = fuzzer_names \<and>
         unique_regions_covered (get_unique_region_cov_df unique_region_dict fuzzer_names) =
           map (\<lambda>fuzzer. length (filter (\<lambda>(region, owners). fuzzer \<in> set owners)
                                     unique_region_dict))
             fuzzer_names \<and>
         (\<forall>i < length fuzzer_names.
            (\<forall>(region, owners) \<in> set unique_region_dict. fuzzer_names ! i \<notin> set owners) \<longrightarrow>
            unique_regions_covered (get_unique_region_cov_df unique_region_dict fuzzer_names) ! i
              = 0)"
proof -
  have owners: "list_all (\<lambda>(region, owners). distinct owners) unique_region_dict"
    using assms by (simp add: list_all_iff)
  have c: "count_list (concat (map snd unique_region_dict)) fuzzer =
      length (filter (\<lambda>(region, owners). fuzzer \<in> set owners) unique_region_dict)" for fuzzer
    by (rule count_concat_distinct [OF owners])
  have z: "length (filter (\<lambda>(region, owners). fuzzer \<in> set owners) unique_region_dict) = 0"
    if "\<forall>(region, owners) \<in> set unique_region_dict. fuzzer \<notin> set owners" for fuzzer
    using that by (auto simp: filter_empty_conv)
  show ?thesis
    unfolding get_unique_region_cov_df_eq using z by (simp add: c)
qed

theorem C4_unique_region_counts_witness:
  "get_unique_region_cov_df [(1 :: nat, [''afl'']), (3, [''libfuzzer''])]
     [''afl'', ''libfuzzer'', ''honggfuzz''] =
   \<lparr>uniq_fuzzer = [''afl'', ''libfuzzer'', ''honggfuzz''], unique_regions_covered = [1, 1, 0]\<rparr>"
proof -
  let ?u = "[(1 :: nat, [''afl'']), (3, [''libfuzzer''])]"
  have o: "\<forall>(region, owners) \<in> set ?u. distinct owners" by simp
  show ?thesis
    using C4_unique_region_counts [OF o, of "[''afl'', ''libfuzzer'', ''honggfuzz'']"]
    by (cases "get_unique_region_cov_df ?u [''afl'', ''libfuzzer'', ''honggfuzz'']") simp
qed

text \<open>
  C9: for the index built by \<open>get_unique_region_dict\<close> and a list of pairwise different
  fuzzer names that has every owner of the index, the counts of
  \<open>get_unique_region_cov_df\<close> add up to the number of regions of the index, every
  region of the index having exactly one owner.
\<close>

theorem C9_unique_counts_sum:
  assumes "distinct fuzzer_names"
    and "\<forall>(region, owners) \<in> set (get_unique_region_dict d). set owners \<subseteq> set fuzzer_names"
  shows "sum_list (unique_regions_covered
                     (get_unique_region_cov_df (get_unique_region_dict d) fuzzer_names)) =
           length (get_unique_region_dict d) \<and>
         length (get_unique_region_dict d) = card (fst ` set (get_unique_region_dict d)) \<and>
         (\<forall>(region, owners) \<in> set (get_unique_region_dict d). length owners = 1)"
proof -
  let ?u = "get_unique_region_dict d"
  have one: "\<forall>(region, owners) \<in> set ?u. length owners = 1"
    using unique_single_owner [of _ _ d] by auto
  have sub: "set (concat (map snd ?u)) \<subseteq> set fuzzer_names"
    using assms(2) by fastforce
  have "length (concat (map snd ?u)) = length ?u"
    by (rule length_concat_single [OF one])
  then have "sum_list (map (count_list (concat (map snd ?u))) fuzzer_names) = length ?u"
    using sum_count_names [OF assms(1) sub] by simp
  moreover have "length ?u = card (fst ` set ?u)"
    using distinct_card [OF distinct_unique [of d]] by simp
  ultimately show ?thesis
    using one by (simp add: get_unique_region_cov_df_eq)
qed

theorem C9_unique_counts_sum_witness:
  "sum_list (unique_regions_covered
               (get_unique_region_cov_df
                  (get_unique_region_dict [(''afl'', [1, 2 :: nat]), (''libfuzzer'', [2, 3])])
                  [''afl'', ''libfuzzer''])) = 2 \<and>
   length (get_unique_region_dict [(''afl'', [1, 2 :: nat]), (''libfuzzer'', [2, 3])]) = 2"
proof -
  let ?d = "[(''afl'', [1, 2 :: nat]), (''libfuzzer'', [2, 3])]"
  have u: "get_unique_region_dict ?d = [(1, [''afl'']), (3, [''libfuzzer''])]"
    by code_simp
  have n: "distinct [''afl'', ''libfuzzer'']" by simp
  have o: "\<forall>(region, owners) \<in> set (get_unique_region_dict ?d).
      set owners \<subseteq> set [''afl'', ''libfuzzer'']"
    unfolding u by simp
  have l: "length (get_unique_region_dict ?d) = 2"
    unfolding u by simp
  show ?thesis
    using C9_unique_counts_sum [OF n o] l by simp
qed

section \<open>Paths\<close>

lemma join_step_component:
  "open_path path \<Longrightarrow> path_component b \<Longrightarrow> join_step path b = path @ CHR ''/'' # b"
  by (simp add: join_step_def open_path_def path_component_def)

lemma open_path_join: "path_component b \<Longrightarrow> open_path (path @ CHR ''/'' # b)"
  by (simp add: open_path_def path_component_def)

lemma posixpath_join_components:
  "open_path a \<Longrightarrow> list_all path_component p \<Longrightarrow>
   posixpath_join a p = a @ concat (map (\<lambda>b. CHR ''/'' # b) p)"
  unfolding posixpath_join_def
proof (induction p arbitrary: a)
  case Nil
  then show ?case by simp
next
  case (Cons b p)
  have b: "path_component b" and p: "list_all path_component p"
    using Cons.prems(2) by simp_all
  have "foldl join_step (a @ CHR ''/'' # b) p =
      (a @ CHR ''/'' # b) @ concat (map (\<lambda>b. CHR ''/'' # b) p)"
    by (rule Cons.IH [OF open_path_join [OF b] p])
  then show ?case
    by (simp add: join_step_component [OF Cons.prems(1) b])
qed

lemma pd_unique_acc:
  "foldl (\<lambda>seen x. if x \<in> set seen then seen else seen @ [x]) (a # seen) xs \<noteq> [] \<and>
   hd (foldl (\<lambda>seen x. if x \<in> set seen then seen else seen @ [x]) (a # seen) xs) = a"
  by (induction xs arbitrary: seen) simp_all

lemma getitem0_pd_unique_Cons: "getitem0 (pd_unique (x # xs)) = Inr x"
  using pd_unique_acc [of x "[]" xs]
  by (cases "pd_unique (x # xs)") (simp_all add: pd_unique_def getitem0_def)

lemma getitem0_pd_unique_Nil: "getitem0 (pd_unique []) = Inl IndexError"
  by (simp add: pd_unique_def getitem0_def)

lemma get_experiment_filestore_path_Cons:
  "get_experiment_filestore_path (row # rest) =
     Inr (posixpath_join (df_experiment_filestore row) [df_experiment row])"
  by (simp add: get_experiment_filestore_path_def getitem0_pd_unique_Cons)

lemma src_file_layout:
  assumes "open_path filestore" "path_component benchmark_name" "path_component fuzzer_name"
  shows "src_file filestore benchmark_name fuzzer_name =
    filestore @ ''/coverage/data/'' @ benchmark_name @ ''/'' @ fuzzer_name @
      ''/covered_regions.json''"
proof -
  have "list_all path_component
      [''coverage'', ''data'', benchmark_name, fuzzer_name, ''covered_regions.json'']"
    using assms(2,3) by (simp add: path_component_def)
  from posixpath_join_components [OF assms(1) this] show ?thesis
    by (simp add: src_file_def)
qed

lemma report_path_layout:
  assumes "open_path filestore" "path_component benchmark_name" "path_component fuzzer_name"
  shows "posixpath_join filestore
           [''coverage'', ''reports'', benchmark_name, fuzzer_name, ''index.html''] =
    filestore @ ''/coverage/reports/'' @ benchmark_name @ ''/'' @ fuzzer_name @ ''/index.html''"
proof -
  have "list_all path_component
      [''coverage'', ''reports'', benchmark_name, fuzzer_name, ''index.html'']"
    using assms(2,3) by (simp add: path_component_def)
  from posixpath_join_components [OF assms(1) this] show ?thesis
    by simp
qed

lemma experiment_path_layout:
  assumes "open_path filestore_root" "path_component experiment_name"
  shows "posixpath_join filestore_root [experiment_name] = filestore_root @ ''/'' @ experiment_name"
    and "open_path (filestore_root @ ''/'' @ experiment_name)"
  using posixpath_join_components [OF assms(1), of "[experiment_name]"] assms(2)
    open_path_join [OF assms(2), of filestore_root]
  by simp_all

section \<open>Claims about the filestore paths\<close>

text \<open>
  C8, as stated, fails for a filestore root that ends with the separator:
  \<open>posixpath.join\<close> adds no second separator, so for the root \<open>gs://bucket/\<close> the
  paths start with \<open>gs://bucket/exp/\<close>, not with \<open>gs://bucket//exp/\<close> as the layout
  \<open><filestore_root>/<experiment_name>/...\<close> reads.
\<close>

theorem C8_path_layout_counterexample:
  "get_experiment_filestore_path
     [\<lparr>df_experiment_filestore = ''gs://bucket/'', df_experiment = ''exp'',
       df_fuzzer = ''afl'', df_benchmark = ''libpng''\<rparr>] = Inr ''gs://bucket/exp'' \<and>
   src_file ''gs://bucket/exp'' ''libpng'' ''afl'' =
     ''gs://bucket/exp/coverage/data/libpng/afl/covered_regions.json'' \<and>
   src_file ''gs://bucket/exp'' ''libpng'' ''afl'' \<noteq>
     ''gs://bucket/'' @ ''/'' @ ''exp'' @ ''/coverage/data/'' @ ''libpng'' @ ''/'' @ ''afl'' @
       ''/covered_regions.json'' \<and>
   get_coverage_report_filestore_path ''afl'' ''libpng''
     [\<lparr>df_experiment_filestore = ''gs://bucket/'', df_experiment = ''exp'',
       df_fuzzer = ''afl'', df_benchmark = ''libpng''\<rparr>] =
     Inr ''gs://bucket/exp/coverage/reports/libpng/afl/index.html'' \<and>
   ''gs://bucket/exp/coverage/reports/libpng/afl/index.html'' \<noteq>
     ''gs://bucket/'' @ ''/'' @ ''exp'' @ ''/coverage/reports/'' @ ''libpng'' @ ''/'' @ ''afl'' @
       ''/index.html''"
  by (simp add: get_coverage_report_filestore_path_def get_experiment_filestore_path_Cons
      src_file_def posixpath_join_def join_step_def)

text \<open>
  C8, amended: when the filestore root is not empty and does not end with \<open>/\<close>, and the
  experiment name, the benchmark and the fuzzer are not empty and neither start nor end
  with \<open>/\<close>, the source path is
  \<open><filestore_root>/<experiment_name>/coverage/data/<benchmark>/<fuzzer>/covered_regions.json\<close>
  and the report path is
  \<open><filestore_root>/<experiment_name>/coverage/reports/<benchmark>/<fuzzer>/index.html\<close>.
  The root and the experiment name are those of the first row of the experiment data
  frame (for the source path, as \<open>get_covered_regions_dict\<close> passes
  \<open>get_experiment_filestore_path(experiment_df)\<close> on) and of the first row for the
  fuzzer and the benchmark (for the report path). The third conjunct reads the path
  that \<open>get_fuzzer_covered_regions\<close> hands to the copy operation off a copy operation
  that stores its source argument.
\<close>

theorem C8_path_layout:
  assumes "open_path filestore_root" and "path_component experiment_name"
    and "path_component benchmark_name" and "path_component fuzzer_name"
    and "experiment_df = first_row # other_rows"
    and "df_experiment_filestore first_row = filestore_root"
    and "df_experiment first_row = experiment_name"
    and "filter (\<lambda>row. df_benchmark row = benchmark_name)
           (filter (\<lambda>row. df_fuzzer row = fuzzer_name) experiment_df) = pair_row # pair_rows"
    and "df_experiment_filestore pair_row = filestore_root"
    and "df_experiment pair_row = experiment_name"
  shows "get_experiment_filestore_path experiment_df =
           Inr (filestore_root @ ''/'' @ experiment_name) \<and>
         src_file (filestore_root @ ''/'' @ experiment_name) benchmark_name fuzzer_name =
           filestore_root @ ''/'' @ experiment_name @ ''/coverage/data/'' @ benchmark_name @
             ''/'' @ fuzzer_name @ ''/covered_regions.json'' \<and>
         snd (get_fuzzer_covered_regions (\<lambda>src dst w. (1, src)) json_load fuzzer_name
                benchmark_name (filestore_root @ ''/'' @ experiment_name) temp_dir w) =
           filestore_root @ ''/'' @ experiment_name @ ''/coverage/data/'' @ benchmark_name @
             ''/'' @ fuzzer_name @ ''/covered_regions.json'' \<and>
         get_coverage_report_filestore_path fuzzer_name benchmark_name experiment_df =
           Inr (filestore_root @ ''/'' @ experiment_name @ ''/coverage/reports/'' @
                  benchmark_name @ ''/'' @ fuzzer_name @ ''/index.html'')"
proof -
  note e = experiment_path_layout [OF assms(1,2)]
  have 1: "get_experiment_filestore_path experiment_df =
      Inr (filestore_root @ ''/'' @ experiment_name)"
    by (simp add: assms(5,6,7) get_experiment_filestore_path_Cons e(1))
  have 2: "src_file (filestore_root @ ''/'' @ experiment_name) benchmark_name fuzzer_name =
           filestore_root @ ''/'' @ experiment_name @ ''/coverage/data/'' @ benchmark_name @
             ''/'' @ fuzzer_name @ ''/covered_regions.json''"
    using src_file_layout [OF e(2) assms(3,4)] by simp
  have 3: "snd (get_fuzzer_covered_regions (\<lambda>src dst w. (1, src)) json_load fuzzer_name
                benchmark_name (filestore_root @ ''/'' @ experiment_name) temp_dir w) =
      src_file (filestore_root @ ''/'' @ experiment_name) benchmark_name fuzzer_name"
    by (simp add: get_fuzzer_covered_regions_def)
  have 4: "get_coverage_report_filestore_path fuzzer_name benchmark_name experiment_df =
           Inr (filestore_root @ ''/'' @ experiment_name @ ''/coverage/reports/'' @
                  benchmark_name @ ''/'' @ fuzzer_name @ ''/index.html'')"
    using report_path_layout [OF e(2) assms(3,4)]
    by (simp add: get_coverage_report_filestore_path_def assms(8,9,10)
        get_experiment_filestore_path_Cons e(1) del: filter_filter)
  show ?thesis
    unfolding 3 using 1 2 4 by simp
qed

theorem C8_path_layout_witness:
  "get_experiment_filestore_path
     [\<lparr>df_experiment_filestore = ''gs://bucket'', df_experiment = ''exp'',
       df_fuzzer = ''afl'', df_benchmark = ''libpng''\<rparr>] = Inr ''gs://bucket/exp'' \<and>
   src_file ''gs://bucket/exp'' ''libpng'' ''afl'' =
     ''gs://bucket/exp/coverage/data/libpng/afl/covered_regions.json'' \<and>
   get_coverage_report_filestore_path ''afl'' ''libpng''
     [\<lparr>df_experiment_filestore = ''gs://bucket'', df_experiment = ''exp'',
       df_fuzzer = ''afl'', df_benchmark = ''libpng''\<rparr>] =
     Inr ''gs://bucket/exp/coverage/reports/libpng/afl/index.html''"
proof -
  let ?row = "\<lparr>df_experiment_filestore = ''gs://bucket'', df_experiment = ''exp'',
       df_fuzzer = ''afl'', df_benchmark = ''libpng''\<rparr>"
  have p: "open_path ''gs://bucket''" "path_component ''exp''" "path_component ''libpng''"
    "path_component ''afl''"
    by (simp_all add: open_path_def path_component_def)
  have d: "[?row] = ?row # []" by simp
  have f: "filter (\<lambda>row. df_benchmark row = ''libpng'')
           (filter (\<lambda>row. df_fuzzer row = ''afl'') [?row]) = ?row # []" by simp
  have r: "df_experiment_filestore ?row = ''gs://bucket''" "df_experiment ?row = ''exp''"
    by simp_all
  show ?thesis
    using C8_path_layout [OF p d r f r, of "\<lambda>path w. Inl OSError" "[]" "[]"]
    by (elim conjE) simp
qed

section \<open>Rows of the aggregate table\<close>

lemma benchmark_entries_member:
  "(key_pair, covered_regions) \<in> set coverage_dict \<Longrightarrow>
   split_key_pair key_pair = Inr (fuzzer, benchmark) \<Longrightarrow>
   (fuzzer, covered_regions) \<in> set (benchmark_entries coverage_dict benchmark)"
  by (induction coverage_dict)
     (auto simp: benchmark_entries_Nil benchmark_entries_Cons split: sum.splits prod.splits)

lemma zip_columns: "zip (map f xs) (map g xs) = map (\<lambda>x. (f x, g x)) xs"
  by (induction xs) simp_all

lemma update_member: "(k, v) \<in> set (AList.update k v al)"
  by (induction al) auto

lemma update_keys_split:
  assumes "\<forall>(key_pair, covered_regions) \<in> set coverage_dict. length (py_split key_pair) = 2"
    and "length (py_split k) = 2"
  shows "\<forall>(key_pair, covered_regions) \<in> set (AList.update k v coverage_dict).
           length (py_split key_pair) = 2"
proof -
  have "length (py_split key_pair) = 2"
    if "(key_pair, covered_regions) \<in> set (AList.update k v coverage_dict)"
    for key_pair covered_regions
  proof -
    from that set_update_subset [of k v coverage_dict]
    have "(key_pair, covered_regions) = (k, v) \<or> (key_pair, covered_regions) \<in> set coverage_dict"
      by blast
    then show ?thesis using assms by blast
  qed
  then show ?thesis by blast
qed

lemma aggregated_row_after_update:
  assumes "\<forall>(key_pair, covered_regions) \<in> set coverage_dict. length (py_split key_pair) = 2"
    and "split_key_pair k = Inr (fuzzer, benchmark)"
    and "length (py_split k) = 2"
  shows "\<exists>t. get_benchmark_aggregated_cov_df (AList.update k v coverage_dict) benchmark = Inr t \<and>
             (fuzzer, py_len v) \<in> set (zip (agg_fuzzer t) (aggregated_edges_covered t))"
proof -
  let ?d = "AList.update k v coverage_dict"
  let ?es = "benchmark_entries ?d benchmark"
  have keys: "\<forall>(key_pair, covered_regions) \<in> set ?d. length (py_split key_pair) = 2"
    by (rule update_keys_split [OF assms(1,3)])
  have m: "(fuzzer, v) \<in> set ?es"
    by (rule benchmark_entries_member [OF update_member assms(2)])
  have z: "zip (map fst ?es) (map (\<lambda>(fuzzer, covered_regions). py_len covered_regions) ?es) =
      map (\<lambda>x. (fst x, case x of (fuzzer, covered_regions) \<Rightarrow> py_len covered_regions)) ?es"
    by (rule zip_columns)
  have "(fuzzer, py_len v) \<in>
      set (map (\<lambda>x. (fst x, case x of (fuzzer, covered_regions) \<Rightarrow> py_len covered_regions)) ?es)"
    using m by (force simp: image_iff)
  then have "(fuzzer, py_len v) \<in>
      set (zip (map fst ?es) (map (\<lambda>(fuzzer, covered_regions). py_len covered_regions) ?es))"
    unfolding z .
  then show ?thesis
    unfolding get_benchmark_aggregated_cov_df_ok [OF keys] by simp
qed

section \<open>Claims about the aggregate table and failed retrieval\<close>

text \<open>
  C3, as stated, fails for a stored region list that repeats a region:
  \<open>get_benchmark_aggregated_cov_df\<close> takes \<open>len(covered_regions)\<close> of the list as stored,
  while the region set that \<open>get_benchmark_cov_dict\<close> builds from the same entry has the
  region once.
\<close>

theorem C3_aggregate_count_counterexample:
  "get_benchmark_aggregated_cov_df
     [(''afl libpng'', RegionList [[1, 2 :: nat], [1, 2]])] ''libpng'' =
     Inr \<lparr>agg_fuzzer = [''afl''], aggregated_edges_covered = [2]\<rparr> \<and>
   get_benchmark_cov_dict
     [(''afl libpng'', RegionList [[1, 2 :: nat], [1, 2]])] ''libpng'' =
     Inr [(''afl'', [[1, 2]])] \<and>
   card (set [[1, 2 :: nat]]) = 1"
  by (simp add: get_benchmark_aggregated_cov_df_def get_benchmark_cov_dict_def
      split_key_pair_def py_split_def py_isspace_def py_len_def covered_regions_in_set_def
      set_add_def tuple_def)

text \<open>
  C3, amended: for a coverage dictionary whose keys all split into two words and a
  target benchmark, the table of \<open>get_benchmark_aggregated_cov_df\<close> has one row for every
  key whose benchmark component is the target, in the order of the dictionary, with the
  fuzzer component of the key and the number of entries of the stored region collection,
  a repeated region counted every time. That count is the cardinality of the fuzzer's
  filtered region set (the set \<open>get_benchmark_cov_dict\<close> stores) exactly when the stored
  collection repeats no region; a fuzzer with empty region data has a row with count \<open>0\<close>.
\<close>

theorem C3_aggregate_count:
  assumes "\<forall>(key_pair, covered_regions) \<in> set coverage_dict. length (py_split key_pair) = 2"
  shows "get_benchmark_aggregated_cov_df coverage_dict benchmark =
           Inr \<lparr>agg_fuzzer = map fst (benchmark_entries coverage_dict benchmark),
                aggregated_edges_covered =
                  map (\<lambda>(fuzzer, covered_regions). py_len covered_regions)
                    (benchmark_entries coverage_dict benchmark)\<rparr> \<and>
         get_benchmark_cov_dict coverage_dict benchmark =
           Inr (fold (\<lambda>(fuzzer, covered_regions).
                        AList.update fuzzer (covered_regions_in_set covered_regions))
                  (benchmark_entries coverage_dict benchmark) []) \<and>
         (\<forall>(fuzzer, covered_regions) \<in> set (benchmark_entries coverage_dict benchmark).
            py_len covered_regions = length (py_iter covered_regions) \<and>
            length (covered_regions_in_set covered_regions) =
              card (set (py_iter covered_regions)) \<and>
            (py_len covered_regions = length (covered_regions_in_set covered_regions) \<longleftrightarrow>
               distinct (py_iter covered_regions)) \<and>
            (py_iter covered_regions = [] \<longrightarrow> py_len covered_regions = 0))"
proof -
  have a: "get_benchmark_aggregated_cov_df coverage_dict benchmark =
           Inr \<lparr>agg_fuzzer = map fst (benchmark_entries coverage_dict benchmark),
                aggregated_edges_covered =
                  map (\<lambda>(fuzzer, covered_regions). py_len covered_regions)
                    (benchmark_entries coverage_dict benchmark)\<rparr>"
    by (rule get_benchmark_aggregated_cov_df_ok [OF assms])
  have b: "get_benchmark_cov_dict coverage_dict benchmark =
           Inr (fold (\<lambda>(fuzzer, covered_regions).
                        AList.update fuzzer (covered_regions_in_set covered_regions))
                  (benchmark_entries coverage_dict benchmark) [])"
    unfolding get_benchmark_cov_dict_def by (rule benchmark_cov_dict_loop_ok [OF assms])
  have c: "py_len covered_regions = length (py_iter covered_regions) \<and>
            length (covered_regions_in_set covered_regions) =
              card (set (py_iter covered_regions)) \<and>
            (py_len covered_regions = length (covered_regions_in_set covered_regions) \<longleftrightarrow>
               distinct (py_iter covered_regions)) \<and>
            (py_iter covered_regions = [] \<longrightarrow> py_len covered_regions = 0)"
    for covered_regions :: "'a covered_regions"
  proof (intro conjI impI)
    show "py_len covered_regions = length (py_iter covered_regions)"
      by (simp add: py_len_def)
    show "length (covered_regions_in_set covered_regions) = card (set (py_iter covered_regions))"
      by (rule length_covered_regions_in_set)
    show "(py_len covered_regions = length (covered_regions_in_set covered_regions)) =
        distinct (py_iter covered_regions)"
      by (rule py_len_eq_card_iff)
    show "py_len covered_regions = 0" if "py_iter covered_regions = []"
      using that by (simp add: py_len_def)
  qed
  have d: "case x of (fuzzer, covered_regions) \<Rightarrow>
            py_len covered_regions = length (py_iter covered_regions) \<and>
            length (covered_regions_in_set covered_regions) =
              card (set (py_iter covered_regions)) \<and>
            (py_len covered_regions = length (covered_regions_in_set covered_regions) \<longleftrightarrow>
               distinct (py_iter covered_regions)) \<and>
            (py_iter covered_regions = [] \<longrightarrow> py_len covered_regions = 0)"
    for x :: "string \<times> 'a covered_regions"
    unfolding split_beta by (rule c)
  show ?thesis
    by (intro conjI ballI) (rule a, rule b, rule d)
qed

theorem C3_aggregate_count_witness:
  "get_benchmark_aggregated_cov_df
     [(''afl libpng'', RegionList [[0, 0, 3, 3 :: nat], [0, 0, 2, 2], [0, 0, 1, 1]]),
      (''libfuzzer libpng'', EmptyDict),
      (''afl zlib'', RegionList [[5, 5, 5, 5]])] ''libpng'' =
     Inr \<lparr>agg_fuzzer = [''afl'', ''libfuzzer''], aggregated_edges_covered = [3, 0]\<rparr>"
proof -
  let ?d = "[(''afl libpng'', RegionList [[0, 0, 3, 3 :: nat], [0, 0, 2, 2], [0, 0, 1, 1]]),
      (''libfuzzer libpng'', EmptyDict),
      (''afl zlib'', RegionList [[5, 5, 5, 5]])]"
  have k: "\<forall>(key_pair, covered_regions) \<in> set ?d. length (py_split key_pair) = 2"
    by (simp add: py_split_def py_isspace_def)
  have e: "benchmark_entries ?d ''libpng'' =
      [(''afl'', RegionList [[0, 0, 3, 3], [0, 0, 2, 2], [0, 0, 1, 1]]), (''libfuzzer'', EmptyDict)]"
    by (simp add: benchmark_entries_Cons benchmark_entries_Nil split_key_pair_def py_split_def
        py_isspace_def)
  note t = C3_aggregate_count [OF k, of "''libpng''", THEN conjunct1, unfolded e]
  show ?thesis
    using t by (simp add: py_len_def)
qed

text \<open>
  C5, as stated, fails in its downstream half for names the key does not carry. With
  the empty fuzzer name and the benchmark \<open>y\<close> the failed copy gives \<open>{}\<close>, but the key
  \<open>" y"\<close> splits into one word and the aggregation raises \<open>ValueError\<close>: there is no
  count for the fuzzer. With the empty fuzzer name and the benchmark \<open>b c\<close> the key
  \<open>" b c"\<close> splits into the words \<open>b\<close> and \<open>c\<close>, and the aggregate table for the benchmark
  \<open>b c\<close> has no row at all.
\<close>

theorem C5_copy_failure_counterexample:
  "fst (get_fuzzer_covered_regions (\<lambda>src dst w. (1, w)) (\<lambda>path w. Inr (RegionList [[1 :: nat]]))
          [] ''y'' ''gs://bucket/exp'' ''/tmp/scratch'' ()) = Inr EmptyDict \<and>
   get_fuzzer_benchmark_key [] ''y'' = '' y'' \<and>
   get_benchmark_aggregated_cov_df
     [(get_fuzzer_benchmark_key [] ''y'', EmptyDict :: nat covered_regions)] ''y'' =
     Inl ValueError \<and>
   fst (get_fuzzer_covered_regions (\<lambda>src dst w. (1, w)) (\<lambda>path w. Inr (RegionList [[1 :: nat]]))
          [] ''b c'' ''gs://bucket/exp'' ''/tmp/scratch'' ()) = Inr EmptyDict \<and>
   get_benchmark_aggregated_cov_df
     [(get_fuzzer_benchmark_key [] ''b c'', EmptyDict :: nat covered_regions)] ''b c'' =
     Inr \<lparr>agg_fuzzer = [], aggregated_edges_covered = []\<rparr>"
  by (simp add: get_fuzzer_covered_regions_def get_benchmark_aggregated_cov_df_def
      get_fuzzer_benchmark_key_def split_key_pair_def py_split_def py_isspace_def)

text \<open>
  C5, amended: when the copy operation returns a status other than \<open>0\<close>,
  \<open>get_fuzzer_covered_regions\<close> returns the empty collection \<open>{}\<close> and raises nothing,
  whatever the fuzzer, the benchmark, the filestore path and the scratch directory are,
  and \<open>get_fuzzer_benchmark_covered_regions\<close> pairs it with the key. The empty collection
  has length \<open>0\<close> and gives the empty region set. When the fuzzer name and the benchmark
  name are not empty and contain no whitespace, the aggregate table of the dictionary
  with this one entry is the single row (fuzzer, \<open>0\<close>), and for every coverage
  dictionary whose keys all split into two words, the dictionary with this entry
  stored under the key gives an aggregate table, not an error, that has the row
  (fuzzer, \<open>0\<close>).
\<close>

theorem C5_copy_failure:
  assumes "fst (cp (src_file filestore benchmark fuzzer) (dst_file temp_dir fuzzer benchmark) w)
             \<noteq> 0"
  shows "fst (get_fuzzer_covered_regions cp json_load fuzzer benchmark filestore temp_dir w) =
           Inr EmptyDict \<and>
         fst (get_fuzzer_benchmark_covered_regions cp json_load
                (fuzzer, benchmark, filestore, temp_dir) w) =
           Inr (get_fuzzer_benchmark_key fuzzer benchmark, EmptyDict) \<and>
         py_iter (EmptyDict :: 'a covered_regions) = [] \<and>
         py_len (EmptyDict :: 'a covered_regions) = 0 \<and>
         covered_regions_in_set (EmptyDict :: 'a covered_regions) = [] \<and>
         (fuzzer \<noteq> [] \<and> benchmark \<noteq> [] \<and>
          \<not> contains_whitespace fuzzer \<and> \<not> contains_whitespace benchmark \<longrightarrow>
            get_benchmark_aggregated_cov_df
              [(get_fuzzer_benchmark_key fuzzer benchmark, EmptyDict :: 'a covered_regions)]
              benchmark =
              Inr \<lparr>agg_fuzzer = [fuzzer], aggregated_edges_covered = [0]\<rparr> \<and>
            (\<forall>coverage_dict :: (string \<times> 'a covered_regions) list.
               (\<forall>(key_pair, covered_regions) \<in> set coverage_dict.
                  length (py_split key_pair) = 2) \<longrightarrow>
               (\<exists>t. get_benchmark_aggregated_cov_df
                       (AList.update (get_fuzzer_benchmark_key fuzzer benchmark) EmptyDict
                          coverage_dict) benchmark = Inr t \<and>
                    (fuzzer, 0) \<in> set (zip (agg_fuzzer t) (aggregated_edges_covered t)))))"
proof -
  let ?key = "get_fuzzer_benchmark_key fuzzer benchmark"
  obtain retcode w' where
    cp: "cp (src_file filestore benchmark fuzzer) (dst_file temp_dir fuzzer benchmark) w =
      (retcode, w')"
    by (cases "cp (src_file filestore benchmark fuzzer) (dst_file temp_dir fuzzer benchmark) w")
  have r: "retcode \<noteq> 0" using assms cp by simp
  have 1: "get_fuzzer_covered_regions cp json_load fuzzer benchmark filestore temp_dir w =
      (Inr EmptyDict, w')"
    by (simp add: get_fuzzer_covered_regions_def cp r)
  have 2: "get_fuzzer_benchmark_covered_regions cp json_load
      (fuzzer, benchmark, filestore, temp_dir) w = (Inr (?key, EmptyDict), w')"
    by (simp add: get_fuzzer_benchmark_covered_regions_def 1)
  have 3: "py_len (EmptyDict :: 'a covered_regions) = 0"
    and 4: "covered_regions_in_set (EmptyDict :: 'a covered_regions) = []"
    by (simp_all add: py_len_def covered_regions_in_set_def)
  have one: "get_benchmark_aggregated_cov_df [(?key, EmptyDict :: 'a covered_regions)] benchmark =
        Inr \<lparr>agg_fuzzer = [fuzzer], aggregated_edges_covered = [0]\<rparr>"
    if "fuzzer \<noteq> [] \<and> benchmark \<noteq> [] \<and>
        \<not> contains_whitespace fuzzer \<and> \<not> contains_whitespace benchmark"
  proof -
    have "split_key_pair ?key = Inr (fuzzer, benchmark)"
      using that by (intro split_key_pair_key) simp_all
    then show ?thesis
      by (simp add: get_benchmark_aggregated_cov_df_def 3)
  qed
  have all: "\<exists>t. get_benchmark_aggregated_cov_df
                       (AList.update ?key EmptyDict coverage_dict) benchmark = Inr t \<and>
                    (fuzzer, 0) \<in> set (zip (agg_fuzzer t) (aggregated_edges_covered t))"
    if names: "fuzzer \<noteq> [] \<and> benchmark \<noteq> [] \<and>
        \<not> contains_whitespace fuzzer \<and> \<not> contains_whitespace benchmark"
      and keys: "\<forall>(key_pair, covered_regions) \<in> set coverage_dict.
                  length (py_split key_pair) = 2"
    for coverage_dict :: "(string \<times> 'a covered_regions) list"
  proof -
    have s: "split_key_pair ?key = Inr (fuzzer, benchmark)"
      using names by (intro split_key_pair_key) simp_all
    have "py_split ?key = [fuzzer, benchmark]"
      using names by (intro py_split_key) simp_all
    then have l: "length (py_split ?key) = 2" by simp
    from aggregated_row_after_update [OF keys s l, of EmptyDict]
    show ?thesis unfolding 3 .
  qed
  show ?thesis
  proof (intro conjI impI allI)
    show "fst (get_fuzzer_covered_regions cp json_load fuzzer benchmark filestore temp_dir w) =
        Inr EmptyDict"
      by (simp add: 1)
    show "fst (get_fuzzer_benchmark_covered_regions cp json_load
                (fuzzer, benchmark, filestore, temp_dir) w) = Inr (?key, EmptyDict)"
      by (simp add: 2)
    show "py_iter (EmptyDict :: 'a covered_regions) = []" by simp
    show "py_len (EmptyDict :: 'a covered_regions) = 0" by (rule 3)
    show "covered_regions_in_set (EmptyDict :: 'a covered_regions) = []" by (rule 4)
  next
    assume "fuzzer \<noteq> [] \<and> benchmark \<noteq> [] \<and>
        \<not> contains_whitespace fuzzer \<and> \<not> contains_whitespace benchmark"
    then show "get_benchmark_aggregated_cov_df [(?key, EmptyDict :: 'a covered_regions)] benchmark =
        Inr \<lparr>agg_fuzzer = [fuzzer], aggregated_edges_covered = [0]\<rparr>"
      by (rule one)
  next
    fix coverage_dict :: "(string \<times> 'a covered_regions) list"
    assume "fuzzer \<noteq> [] \<and> benchmark \<noteq> [] \<and>
        \<not> contains_whitespace fuzzer \<and> \<not> contains_whitespace benchmark"
      and "\<forall>(key_pair, covered_regions) \<in> set coverage_dict. length (py_split key_pair) = 2"
    then show "\<exists>t. get_benchmark_aggregated_cov_df
                       (AList.update ?key EmptyDict coverage_dict) benchmark = Inr t \<and>
                    (fuzzer, 0) \<in> set (zip (agg_fuzzer t) (aggregated_edges_covered t))"
      by (rule all)
  qed
qed

theorem C5_copy_failure_witness:
  "fst (get_fuzzer_covered_regions (\<lambda>src dst w. (1, w)) (\<lambda>path w. Inr (RegionList [[1 :: nat]]))
          ''x'' ''y'' ''gs://bucket/exp'' ''/tmp/scratch'' ()) = Inr EmptyDict \<and>
   get_benchmark_aggregated_cov_df
     [(get_fuzzer_benchmark_key ''x'' ''y'', EmptyDict :: nat covered_regions)] ''y'' =
     Inr \<lparr>agg_fuzzer = [''x''], aggregated_edges_covered = [0]\<rparr>"
proof -
  let ?cp = "\<lambda>(src :: string) (dst :: string) (w :: unit). (1 :: int, w)"
  let ?load = "\<lambda>(path :: string) (w :: unit). (Inr (RegionList [[1 :: nat]]) :: error + nat covered_regions)"
  have f: "fst (?cp (src_file ''gs://bucket/exp'' ''y'' ''x'') (dst_file ''/tmp/scratch'' ''x'' ''y'') ())
      \<noteq> 0"
    by simp
  have n: "''x'' \<noteq> [] \<and> ''y'' \<noteq> [] \<and> \<not> contains_whitespace ''x'' \<and> \<not> contains_whitespace ''y''"
    by (simp add: contains_whitespace_def py_isspace_def)
  note t = C5_copy_failure [of ?cp "''gs://bucket/exp''" "''y''" "''x''" "''/tmp/scratch''" "()",
      OF f, of ?load]
  have a: "fst (get_fuzzer_covered_regions ?cp ?load ''x'' ''y'' ''gs://bucket/exp''
      ''/tmp/scratch'' ()) = Inr EmptyDict"
    by (rule t [THEN conjunct1])
  have b: "get_benchmark_aggregated_cov_df
     [(get_fuzzer_benchmark_key ''x'' ''y'', EmptyDict :: nat covered_regions)] ''y'' =
     Inr \<lparr>agg_fuzzer = [''x''], aggregated_edges_covered = [0]\<rparr>"
    by (rule t [THEN conjunct2, THEN conjunct2, THEN conjunct2, THEN conjunct2, THEN conjunct2,
          rule_format, OF n, THEN conjunct1])
  show ?thesis using a b by (rule conjI)
qed

end
